theory Spec2Isabelle
  imports Complex_Main "HOL-Library.Char_ord" "HOL-Library.List_Lexorder" "HOL-Library.AList"
begin

section \<open>JavaScript values used by the engine\<close>

text \<open>
  Strings are \<open>string\<close> (ASCII); an absent or \<open>undefined\<close>/\<open>null\<close> value is \<open>None\<close>.
  \<open>toString_nat\<close> is \<open>Number.prototype.toString\<close> on a non-negative integer (the keys
  \<open>h.toString()\<close> of an hourly profile).
\<close>

definition digit_char :: "nat \<Rightarrow> char" where
  "digit_char d = ''0123456789'' ! (d mod 10)"

fun toString_nat :: "nat \<Rightarrow> string" where
  "toString_nat n =
     (if n < 10 then [digit_char n] else toString_nat (n div 10) @ [digit_char (n mod 10)])"

declare toString_nat.simps [simp del]

text \<open>\<open>v || 0\<close> on a profile entry: a missing entry and the entry 0 both read as 0.\<close>

definition or0 :: "int option \<Rightarrow> int" where
  "or0 v = (case v of None \<Rightarrow> 0 | Some n \<Rightarrow> (if n = 0 then 0 else n))"

section \<open>FrequentStopClassifier (seattle-transit-access.tsx)\<close>

text \<open>
  An hourly profile is the JSON object \<open>hourly_trips\<close>: hour string to trip count.
  A record of \<open>all_stops_{year}.json\<close> carries it optionally.
\<close>

type_synonym hourly = "string \<rightharpoonup> int"

record stop_json =
  sj_id :: "string option"
  sj_name :: string
  sj_lat :: real
  sj_lon :: real
  hourly_trips :: "hourly option"

text \<open>
  A stop of the frequent-stop list, as built by the two \<open>.map\<close> calls of
  \<open>processAllStopsData\<close> and \<open>addFutureStops\<close>; \<open>isFuture\<close> is absent (falsy) on stops of
  the schedule data. \<open>stop_id\<close> is read by \<open>findIsochroneForStop\<close> when \<open>id\<close> is falsy.
  Field \<open>f\<close> of the source is \<open>s_f\<close> here.
\<close>

record stop =
  s_id :: "string option"
  s_stop_id :: "string option"
  s_name :: string
  s_lat :: real
  s_lon :: real
  s_isFuture :: bool
  s_hourlyTrips :: "hourly option"

text \<open>
  The body of the filter callback of \<open>processAllStopsData\<close>:
  \<^verbatim>\<open>for (let h = 6; h < 19; h++) { const trips = hourlyTrips[h.toString()] || 0;
       total += trips; if (trips < 4) return false; }
     if (total < 77) return false; return true;\<close>
\<close>

function frequentLoop :: "hourly \<Rightarrow> nat \<Rightarrow> int \<Rightarrow> bool" where
  "frequentLoop hourlyTrips h tot =
     (if h < 19 then
        (if or0 (hourlyTrips (toString_nat h)) < 4 then False
         else frequentLoop hourlyTrips (Suc h) (tot + or0 (hourlyTrips (toString_nat h))))
      else if tot < 77 then False else True)"
  by pat_completeness auto
termination
  by (relation "measure (\<lambda>(t, h, s). 19 - h)") auto

declare frequentLoop.simps [simp del]

definition isFrequent :: "stop_json \<Rightarrow> bool" where
  "isFrequent s =
     (case hourly_trips s of None \<Rightarrow> False | Some hourlyTrips \<Rightarrow> frequentLoop hourlyTrips 6 0)"

definition toFrequentStop :: "stop_json \<Rightarrow> stop" where
  "toFrequentStop s =
     \<lparr>s_id = sj_id s, s_stop_id = None, s_name = sj_name s, s_lat = sj_lat s, s_lon = sj_lon s,
      s_isFuture = False, s_hourlyTrips = hourly_trips s\<rparr>"

definition frequentStopList :: "stop_json list \<Rightarrow> stop list" where
  "frequentStopList allStops = map toFrequentStop (filter isFrequent allStops)"

text \<open>The count the classifier reads for hour \<open>h\<close>: missing profile or missing hour is 0.\<close>

definition tripsAt :: "hourly option \<Rightarrow> nat \<Rightarrow> int" where
  "tripsAt p h = (case p of None \<Rightarrow> 0 | Some hourlyTrips \<Rightarrow> or0 (hourlyTrips (toString_nat h)))"

subsection \<open>Future stops (addFutureStops)\<close>

record future_json =
  fj_id :: "string option"
  fj_name :: string
  fj_lat :: real
  fj_lon :: real
  enabled :: "bool option"
  fj_hourly_trips :: "hourly option"

text \<open>
  What \<open>fetch\<close> of the future-stops file gives: an exception anywhere in the \<open>try\<close>,
  a response that is not ok, or the parsed \<open>stops\<close> array.
\<close>

datatype future_fetch = FetchRaised | ResponseNotOk | FutureData "future_json list"

text \<open>\<open>stop.hourly_trips || {}\<close> followed by the loop over the hours 6 to 18.\<close>

function futureLoop :: "hourly \<Rightarrow> nat \<Rightarrow> bool" where
  "futureLoop hourlyTrips h =
     (if h < 19 then
        (if or0 (hourlyTrips (toString_nat h)) < 4 then False
         else futureLoop hourlyTrips (Suc h))
      else True)"
  by pat_completeness auto
termination
  by (relation "measure (\<lambda>(t, h). 19 - h)") auto

declare futureLoop.simps [simp del]

definition futureStopOk :: "future_json \<Rightarrow> bool" where
  "futureStopOk s =
     (if enabled s = Some False then False
      else futureLoop (case fj_hourly_trips s of None \<Rightarrow> Map.empty | Some t \<Rightarrow> t) 6)"

definition toFutureStop :: "future_json \<Rightarrow> stop" where
  "toFutureStop s =
     \<lparr>s_id = fj_id s, s_stop_id = None, s_name = fj_name s, s_lat = fj_lat s, s_lon = fj_lon s,
      s_isFuture = True, s_hourlyTrips = fj_hourly_trips s\<rparr>"

definition addFutureStops :: "stop list \<Rightarrow> string \<Rightarrow> future_fetch \<Rightarrow> stop list" where
  "addFutureStops existingStops year fetched =
     (if year \<notin> set [''2027''] then existingStops
      else case fetched of
             FetchRaised \<Rightarrow> existingStops
           | ResponseNotOk \<Rightarrow> existingStops
           | FutureData stops \<Rightarrow> existingStops @ map toFutureStop (filter futureStopOk stops))"

text \<open>The frequent-stop set of \<open>processAllStopsData\<close> (\<open>finalStopList\<close>).\<close>

definition finalStopList :: "stop_json list \<Rightarrow> string \<Rightarrow> future_fetch \<Rightarrow> stop list" where
  "finalStopList allStops selectedYear fetched =
     addFutureStops (frequentStopList allStops) selectedYear fetched"

text \<open>Profiles used as concrete inputs: the hours 6 to 18 with the given counts.\<close>

definition profileOf :: "int list \<Rightarrow> hourly" where
  "profileOf cs = map_of (zip (map toString_nat [6 ..< 19]) cs)"

definition regularStop :: "hourly \<Rightarrow> stop_json" where
  "regularStop p = \<lparr>sj_id = Some ''s'', sj_name = ''s'', sj_lat = 0, sj_lon = 0, hourly_trips = Some p\<rparr>"

definition futureStop :: "hourly \<Rightarrow> future_json" where
  "futureStop p =
     \<lparr>fj_id = Some ''f'', fj_name = ''f'', fj_lat = 0, fj_lon = 0, enabled = None,
      fj_hourly_trips = Some p\<rparr>"

section \<open>JavaScript built-ins used by extract-all-stops.js\<close>

subsection \<open>Strings and numbers\<close>

text \<open>
  A field of a parsed CSV row is a string, or absent (\<open>undefined\<close>): \<open>string option\<close>.
  \<open>truthy\<close> is JavaScript truthiness of such a value, \<open>orElse v d\<close> is \<open>v || d\<close>.
\<close>

definition truthy :: "string option \<Rightarrow> bool" where
  "truthy v = (case v of None \<Rightarrow> False | Some s \<Rightarrow> s \<noteq> [])"

definition orElse :: "string option \<Rightarrow> string \<Rightarrow> string" where
  "orElse v d = (case v of None \<Rightarrow> d | Some s \<Rightarrow> (if s = [] then d else s))"

definition substring :: "string \<Rightarrow> nat \<Rightarrow> nat \<Rightarrow> string" where
  "substring s a b = take (b - a) (drop a s)"

definition toString_int :: "int \<Rightarrow> string" where
  "toString_int i = (if i < 0 then CHR ''-'' # toString_nat (nat (- i)) else toString_nat (nat i))"

text \<open>A JavaScript number that is an integer or \<open>NaN\<close> (\<open>None\<close>), and its \<open>toString()\<close>.\<close>

type_synonym jsint = "int option"

definition toString_num :: "jsint \<Rightarrow> string" where
  "toString_num v = (case v of None \<Rightarrow> ''NaN'' | Some i \<Rightarrow> toString_int i)"

definition padStart2 :: "string \<Rightarrow> string" where
  "padStart2 s = replicate (2 - length s) CHR ''0'' @ s"

text \<open>
  \<open>parseInt(s)\<close> without radix: leading white space is skipped, a sign is read, a prefix
  \<open>0x\<close>/\<open>0X\<close> selects radix 16, the longest run of digits is the value, and no digit at
  all gives \<open>NaN\<close>. The value is exact here; JavaScript rounds it beyond \<open>2^53\<close>.
\<close>

definition isWhiteSpace :: "char \<Rightarrow> bool" where
  "isWhiteSpace c = (c \<in> set [CHR 0x09, CHR 0x0A, CHR 0x0B, CHR 0x0C, CHR 0x0D, CHR '' ''])"

definition digitValue :: "char \<Rightarrow> nat option" where
  "digitValue c = map_of (zip ''0123456789'' [0 ..< 10]) c"

definition hexValue :: "char \<Rightarrow> nat option" where
  "hexValue c =
     map_of (zip ''0123456789abcdef'' [0 ..< 16] @ zip ''ABCDEF'' [10 ..< 16]) c"

fun digitsValue :: "(char \<Rightarrow> nat option) \<Rightarrow> nat \<Rightarrow> nat \<Rightarrow> string \<Rightarrow> nat" where
  "digitsValue dv radix acc [] = acc"
| "digitsValue dv radix acc (c # cs) =
     (case dv c of None \<Rightarrow> acc | Some d \<Rightarrow> digitsValue dv radix (acc * radix + d) cs)"

definition parseDigits :: "(char \<Rightarrow> nat option) \<Rightarrow> nat \<Rightarrow> int \<Rightarrow> string \<Rightarrow> jsint" where
  "parseDigits dv radix sign s =
     (case s of
        [] \<Rightarrow> None
      | c # cs \<Rightarrow> (if dv c = None then None else Some (sign * int (digitsValue dv radix 0 s))))"

definition stripSign :: "string \<Rightarrow> int \<times> string" where
  "stripSign s =
     (case s of
        [] \<Rightarrow> (1, [])
      | c # cs \<Rightarrow> (if c = CHR ''-'' then (- 1, cs) else if c = CHR ''+'' then (1, cs) else (1, s)))"

definition parseInt :: "string \<Rightarrow> jsint" where
  "parseInt s =
     (case stripSign (dropWhile isWhiteSpace s) of
        (sign, r) \<Rightarrow>
          (if take 2 r = ''0x'' \<or> take 2 r = ''0X'' then parseDigits hexValue 16 sign (drop 2 r)
           else parseDigits digitValue 10 sign r))"

subsection \<open>Dates\<close>

text \<open>
  A \<open>Date\<close> is its day number, counted from 1970-01-01 in local time, or \<open>Invalid Date\<close>
  (\<open>None\<close>); the dates built here are all at local midnight. \<open>daysFromCivil\<close> and
  \<open>civilFromDays\<close> convert between day numbers and the proleptic Gregorian calendar
  (month 1 to 12); \<open>div\<close> and \<open>mod\<close> on \<open>int\<close> round down.
\<close>

type_synonym jsdate = "int option"

definition daysFromCivil :: "int \<Rightarrow> int \<Rightarrow> int \<Rightarrow> int" where
  "daysFromCivil y m d =
     (let y' = (if m \<le> 2 then y - 1 else y);
          era = y' div 400;
          yoe = y' mod 400;
          doy = (153 * (if m > 2 then m - 3 else m + 9) + 2) div 5 + d - 1;
          doe = yoe * 365 + yoe div 4 - yoe div 100 + doy
      in era * 146097 + doe - 719468)"

definition civilFromDays :: "int \<Rightarrow> int \<times> int \<times> int" where
  "civilFromDays z =
     (let z' = z + 719468;
          era = z' div 146097;
          doe = z' mod 146097;
          yoe = (doe - doe div 1460 + doe div 36524 - doe div 146096) div 365;
          doy = doe - (365 * yoe + yoe div 4 - yoe div 100);
          mp = (5 * doy + 2) div 153;
          d = doy - (153 * mp + 2) div 5 + 1;
          m = (if mp < 10 then mp + 3 else mp - 9);
          y = yoe + era * 400 + (if m \<le> 2 then 1 else 0)
      in (y, m, d))"

text \<open>
  \<open>new Date(year, month, day)\<close>: \<open>NaN\<close> in any argument gives \<open>Invalid Date\<close>; a year of
  0 to 99 means 1900 to 1999; the month counts from 0 and a month or day out of range
  carries over (\<open>MakeDay\<close>).
\<close>

definition MakeDay :: "int \<Rightarrow> int \<Rightarrow> int \<Rightarrow> int" where
  "MakeDay year month date = daysFromCivil (year + month div 12) (month mod 12 + 1) 1 + date - 1"

definition newDate :: "jsint \<Rightarrow> jsint \<Rightarrow> jsint \<Rightarrow> jsdate" where
  "newDate year month day =
     (case (year, month, day) of
        (Some y, Some m, Some d) \<Rightarrow>
          Some (MakeDay (if 0 \<le> y \<and> y \<le> 99 then 1900 + y else y) m d)
      | _ \<Rightarrow> None)"

definition getDay :: "jsdate \<Rightarrow> jsint" where
  "getDay t = map_option (\<lambda>d. (d + 4) mod 7) t"

definition getFullYear :: "jsdate \<Rightarrow> jsint" where
  "getFullYear t = map_option (\<lambda>d. fst (civilFromDays d)) t"

definition getMonth :: "jsdate \<Rightarrow> jsint" where
  "getMonth t = map_option (\<lambda>d. fst (snd (civilFromDays d)) - 1) t"

definition getDate :: "jsdate \<Rightarrow> jsint" where
  "getDate t = map_option (\<lambda>d. snd (snd (civilFromDays d))) t"

text \<open>
  \<open>d.setDate(d.getDate() + 1)\<close>: the day after, since \<open>MakeDay\<close> of the date's own year and
  month with its day of month plus one is its day number plus one; \<open>Invalid Date\<close> stays
  invalid.
\<close>

definition setDateNext :: "jsdate \<Rightarrow> jsdate" where
  "setDateNext t = map_option (\<lambda>d. d + 1) t"

section \<open>ServiceCalendarSelector (extract-all-stops.js)\<close>

text \<open>
  A row of \<open>calendar.txt\<close>. The id is a string; the other fields are strings or absent.
\<close>

record calendar_row =
  service_id :: string
  monday :: "string option"
  tuesday :: "string option"
  wednesday :: "string option"
  thursday :: "string option"
  friday :: "string option"
  start_date :: "string option"
  end_date :: "string option"

definition isWeekdayService :: "calendar_row \<Rightarrow> bool" where
  "isWeekdayService c \<longleftrightarrow>
     monday c = Some ''1'' \<and> tuesday c = Some ''1'' \<and> wednesday c = Some ''1'' \<and>
     thursday c = Some ''1'' \<and> friday c = Some ''1''"

text \<open>
  \<^verbatim>\<open>while (wednesdayDate.getDay() !== 3) wednesdayDate.setDate(wednesdayDate.getDate() + 1);\<close>
  The loop need not end: the result is \<open>None\<close> when it does not.
\<close>

partial_function (option) firstWednesday :: "jsdate \<Rightarrow> jsdate option" where
  "firstWednesday wednesdayDate =
     (if getDay wednesdayDate \<noteq> Some 3 then firstWednesday (setDateNext wednesdayDate)
      else Some wednesdayDate)"

declare firstWednesday.simps [code]

definition formatDate :: "jsdate \<Rightarrow> string" where
  "formatDate t =
     toString_num (getFullYear t) @
     padStart2 (toString_num (map_option (\<lambda>m. m + 1) (getMonth t))) @
     padStart2 (toString_num (getDate t))"

definition parseStartDate :: "string \<Rightarrow> jsdate" where
  "parseStartDate latestStartDate =
     newDate (parseInt (substring latestStartDate 0 4))
             (map_option (\<lambda>m. m - 1) (parseInt (substring latestStartDate 4 6)))
             (parseInt (substring latestStartDate 6 8))"

definition activeOn :: "string \<Rightarrow> calendar_row \<Rightarrow> bool" where
  "activeOn wednesdayDateStr s \<longleftrightarrow>
     orElse (start_date s) ''0'' \<le> wednesdayDateStr \<and>
     wednesdayDateStr \<le> orElse (end_date s) ''99999999''"

definition allStartDates :: "calendar_row list \<Rightarrow> string list" where
  "allStartDates weekdayServiceEntries =
     sort (map the (filter truthy (map start_date weekdayServiceEntries)))"

text \<open>The result is the \<open>Set\<close> of service ids; \<open>None\<close> means that the call does not return.\<close>

definition getRelevantServiceIds :: "calendar_row list \<Rightarrow> string set option" where
  "getRelevantServiceIds calendar =
     (let weekdayServiceEntries = filter isWeekdayService calendar in
      if length weekdayServiceEntries = 0 then Some {}
      else if length (allStartDates weekdayServiceEntries) = 0 then Some {}
      else
        case firstWednesday (parseStartDate (last (allStartDates weekdayServiceEntries))) of
          None \<Rightarrow> None
        | Some wednesdayDate \<Rightarrow>
            Some (set (map service_id
                    (filter (activeOn (formatDate wednesdayDate)) weekdayServiceEntries))))"

text \<open>Calendar rows used as concrete inputs.\<close>

definition weekdayRow :: "string \<Rightarrow> string \<Rightarrow> string \<Rightarrow> calendar_row" where
  "weekdayRow sid start end =
     \<lparr>service_id = sid, monday = Some ''1'', tuesday = Some ''1'', wednesday = Some ''1'',
      thursday = Some ''1'', friday = Some ''1'', start_date = Some start, end_date = Some end\<rparr>"

definition saturdayRow :: "string \<Rightarrow> string \<Rightarrow> string \<Rightarrow> calendar_row" where
  "saturdayRow sid start end =
     \<lparr>service_id = sid, monday = Some ''0'', tuesday = Some ''0'', wednesday = Some ''0'',
      thursday = Some ''0'', friday = Some ''0'', start_date = Some start, end_date = Some end\<rparr>"

definition calendar2025 :: "calendar_row list" where
  "calendar2025 =
     [weekdayRow ''A'' ''20250830'' ''20260320'', weekdayRow ''B'' ''20250301'' ''20250829'',
      saturdayRow ''S'' ''20250830'' ''20260320'']"

section \<open>FrequencyAggregator (extract-all-stops.js)\<close>

text \<open>Rows of \<open>trips.txt\<close> and \<open>stop_times.txt\<close>; the ids are strings.\<close>

record trip_row =
  trip_id :: string
  route_id :: string
  direction_id :: string
  t_service_id :: string

record stop_time_row =
  st_trip_id :: string
  st_stop_id :: string
  arrival_time :: "string option"
  departure_time :: "string option"

text \<open>
  A \<open>Set\<close> of strings is the list of its elements in insertion order; \<open>setAdd\<close> is
  \<open>Set.prototype.add\<close> and the length of the list is \<open>size\<close>.
\<close>

definition setAdd :: "string \<Rightarrow> string list \<Rightarrow> string list" where
  "setAdd x S = (if x \<in> set S then S else S @ [x])"

text \<open>
  A group of \<open>stopRouteDirectionHeadways\<close>. \<open>tripTimes\<close> is an object created by \<open>{}\<close>:
  its own properties are keyed by \<open>String(hour)\<close> and hold the trip-id sets.
\<close>

record group =
  g_stop_id :: string
  g_route_id :: string
  g_direction_id :: string
  tripTimes :: "string \<rightharpoonup> string list"

text \<open>
  Reading a property of \<open>{}\<close> that is not its own finds the members of
  \<open>Object.prototype\<close>, all truthy. \<open>propertyTruthy o k\<close> is the test \<open>o[k]\<close> on an object
  whose own properties are all truthy.
\<close>

definition objectPrototypeKeys :: "string list" where
  "objectPrototypeKeys =
     [''constructor'', ''__defineGetter__'', ''__defineSetter__'', ''hasOwnProperty'',
      ''__lookupGetter__'', ''__lookupSetter__'', ''isPrototypeOf'', ''propertyIsEnumerable'',
      ''toString'', ''valueOf'', ''__proto__'', ''toLocaleString'']"

definition propertyTruthy :: "(string \<rightharpoonup> 'v) \<Rightarrow> string \<Rightarrow> bool" where
  "propertyTruthy obj k \<longleftrightarrow> obj k \<noteq> None \<or> k \<in> set objectPrototypeKeys"

text \<open>\<open>a % 24\<close> on an integer or \<open>NaN\<close>: the remainder has the sign of \<open>a\<close>.\<close>

definition rem24 :: "jsint \<Rightarrow> jsint" where
  "rem24 a = map_option (\<lambda>i. sgn i * (\<bar>i\<bar> mod 24)) a"

text \<open>\<open>parseInt(time.split(':')[0]) % 24\<close>\<close>

definition hourOf :: "string \<Rightarrow> jsint" where
  "hourOf time = rem24 (parseInt (takeWhile (\<lambda>c. c \<noteq> CHR '':'') time))"

text \<open>\<open>stopTime.arrival_time || stopTime.departure_time\<close>, \<open>None\<close> when falsy.\<close>

definition timeOf :: "stop_time_row \<Rightarrow> string option" where
  "timeOf stopTime =
     (if truthy (arrival_time stopTime) then arrival_time stopTime
      else if truthy (departure_time stopTime) then departure_time stopTime
      else None)"

text \<open>The \<open>combinableRoutes\<close> map and the combined route key.\<close>

definition combinableRoutes :: "string \<rightharpoonup> string" where
  "combinableRoutes = map_of [(''100173'', ''100219''), (''100219'', ''100173'')]"

definition routeKey :: "string \<Rightarrow> string" where
  "routeKey r =
     (case combinableRoutes r of
        None \<Rightarrow> r
      | Some otherRoute \<Rightarrow> sort [r, otherRoute] ! 0 @ ''|'' @ sort [r, otherRoute] ! 1)"

definition groupKey :: "string \<Rightarrow> string \<Rightarrow> string \<Rightarrow> string" where
  "groupKey stopId r d = stopId @ ''|'' @ r @ ''|'' @ d"

text \<open>
  \<open>tripInfo\<close>: the last row of each trip id. \<open>activeTrips\<close>: the ids of the rows whose
  service is active.
\<close>

definition tripInfoOf :: "trip_row list \<Rightarrow> (string \<rightharpoonup> trip_row)" where
  "tripInfoOf trips = foldl (\<lambda>tripInfo t. tripInfo(trip_id t \<mapsto> t)) Map.empty trips"

definition activeTripsOf :: "trip_row list \<Rightarrow> string set \<Rightarrow> string set" where
  "activeTripsOf trips activeServiceIds =
     set (map trip_id (filter (\<lambda>t. t_service_id t \<in> activeServiceIds) trips))"

text \<open>
  The recording step on one group:
  \<^verbatim>\<open>if (!tripTimes[tripId]) { if (!tripTimes[hour]) tripTimes[hour] = new Set();
       tripTimes[hour].add(tripId); }\<close>
\<close>

definition recordTrip :: "string \<Rightarrow> jsint \<Rightarrow> group \<Rightarrow> group" where
  "recordTrip tripId hour g =
     (if \<not> propertyTruthy (tripTimes g) tripId then
        g\<lparr>tripTimes := (tripTimes g)(toString_num hour \<mapsto>
             setAdd tripId (case tripTimes g (toString_num hour) of None \<Rightarrow> [] | Some S \<Rightarrow> S))\<rparr>
      else g)"

text \<open>
  The body of the \<open>forEach\<close> over the retained stop times. \<open>stopRouteDirectionHeadways\<close> is
  the list of its entries in insertion order (its keys contain \<open>|\<close>, so none is an array
  index or a member of \<open>Object.prototype\<close>).
\<close>

definition processStopTime ::
  "(string \<rightharpoonup> trip_row) \<Rightarrow> (string \<times> group) list \<Rightarrow> stop_time_row \<Rightarrow> (string \<times> group) list" where
  "processStopTime tripInfo headways stopTime =
     (case timeOf stopTime of
        None \<Rightarrow> headways
      | Some time \<Rightarrow>
          (case tripInfo (st_trip_id stopTime) of
             None \<Rightarrow> headways
           | Some trip \<Rightarrow>
               (let key = groupKey (st_stop_id stopTime) (routeKey (route_id trip)) (direction_id trip);
                    g = (case map_of headways key of
                           None \<Rightarrow> \<lparr>g_stop_id = st_stop_id stopTime,
                                    g_route_id = routeKey (route_id trip),
                                    g_direction_id = direction_id trip, tripTimes = Map.empty\<rparr>
                         | Some g \<Rightarrow> g)
                in AList.update key (recordTrip (st_trip_id stopTime) (hourOf time) g) headways)))"

definition stopRouteDirectionHeadways ::
  "stop_time_row list \<Rightarrow> trip_row list \<Rightarrow> string set \<Rightarrow> (string \<times> group) list" where
  "stopRouteDirectionHeadways stopTimes trips activeServiceIds =
     foldl (processStopTime (tripInfoOf trips)) []
       (filter (\<lambda>st. st_trip_id st \<in> activeTripsOf trips activeServiceIds) stopTimes)"

text \<open>
  The aggregation by stop. \<open>hourlyTrips\<close> is the object with the keys 0 to 23, here the
  list of its 24 values: \<open>tripTimes[h] ? tripTimes[h].size : 0\<close>.
\<close>

definition groupCount :: "group \<Rightarrow> nat \<Rightarrow> nat" where
  "groupCount g h = (case tripTimes g (toString_nat h) of None \<Rightarrow> 0 | Some S \<Rightarrow> length S)"

definition hourlyTripsOf :: "group \<Rightarrow> nat list" where
  "hourlyTripsOf g = map (groupCount g) [0 ..< 24]"

definition aggregateGroup :: "(string \<times> nat list) list \<Rightarrow> group \<Rightarrow> (string \<times> nat list) list" where
  "aggregateGroup stopMaxFrequencies g =
     (case map_of stopMaxFrequencies (g_stop_id g) of
        None \<Rightarrow> stopMaxFrequencies @ [(g_stop_id g, hourlyTripsOf g)]
      | Some existingFreq \<Rightarrow>
          AList.update (g_stop_id g)
            (map (\<lambda>h. max (existingFreq ! h) (hourlyTripsOf g ! h)) [0 ..< 24])
            stopMaxFrequencies)"

definition stopMaxFrequenciesOf :: "group list \<Rightarrow> (string \<times> nat list) list" where
  "stopMaxFrequenciesOf groups = foldl aggregateGroup [] groups"

text \<open>\<open>hourlyTripsStr[h.toString()] = hourlyTrips[h]\<close> for the hours 0 to 23.\<close>

definition hourlyTripsStr :: "nat list \<Rightarrow> hourly" where
  "hourlyTripsStr hourlyTrips = map_of (map (\<lambda>h. (toString_nat h, int (hourlyTrips ! h))) [0 ..< 24])"

text \<open>The result \<open>Map\<close> is the list of its entries in insertion order.\<close>

definition calculateStopFrequencies ::
  "stop_time_row list \<Rightarrow> trip_row list \<Rightarrow> string set \<Rightarrow> (string \<times> hourly) list" where
  "calculateStopFrequencies stopTimes trips activeServiceIds =
     (if activeServiceIds = {} then []
      else map (\<lambda>(stopId, hourlyTrips). (stopId, hourlyTripsStr hourlyTrips))
             (stopMaxFrequenciesOf
                (map snd (stopRouteDirectionHeadways stopTimes trips activeServiceIds))))"

text \<open>
  The two calls of \<open>extractStopsFromZip\<close>:
  \<open>calculateStopFrequencies(stopTimes, trips, getRelevantServiceIds(calendar))\<close>.
\<close>

definition stopFrequencies ::
  "stop_time_row list \<Rightarrow> trip_row list \<Rightarrow> calendar_row list \<Rightarrow> (string \<times> hourly) list option" where
  "stopFrequencies stopTimes trips calendar =
     map_option (calculateStopFrequencies stopTimes trips) (getRelevantServiceIds calendar)"

text \<open>
  The groups of one stop, and the hour-wise maximum of the counts of a list of groups.
\<close>

definition groupsOfStop :: "group list \<Rightarrow> string \<Rightarrow> group list" where
  "groupsOfStop groups s = filter (\<lambda>g. g_stop_id g = s) groups"

definition maxProfile :: "group list \<Rightarrow> nat list" where
  "maxProfile gs = map (\<lambda>h. Max (set (map (\<lambda>g. groupCount g h) gs))) [0 ..< 24]"

text \<open>
  The group key of a retained stop time (none if the row has no time or its trip is
  unknown), the key of its hour in \<open>tripTimes\<close>, and the trip ids of the rows of a group
  that fall under an hour key. A trip id collides when it is itself a possible key of
  \<open>tripTimes\<close>: the string of a number, or a member of \<open>Object.prototype\<close>.
\<close>

definition rowKey :: "(string \<rightharpoonup> trip_row) \<Rightarrow> stop_time_row \<Rightarrow> string option" where
  "rowKey tripInfo st =
     (case timeOf st of
        None \<Rightarrow> None
      | Some time \<Rightarrow>
          (case tripInfo (st_trip_id st) of
             None \<Rightarrow> None
           | Some trip \<Rightarrow>
               Some (groupKey (st_stop_id st) (routeKey (route_id trip)) (direction_id trip))))"

definition rowHourKey :: "stop_time_row \<Rightarrow> string" where
  "rowHourKey st = toString_num (hourOf (case timeOf st of None \<Rightarrow> [] | Some time \<Rightarrow> time))"

definition tripsIn ::
  "(string \<rightharpoonup> trip_row) \<Rightarrow> stop_time_row list \<Rightarrow> string \<Rightarrow> string \<Rightarrow> string set" where
  "tripsIn tripInfo rows K k =
     {tid. \<exists>st \<in> set rows. tid = st_trip_id st \<and> rowKey tripInfo st = Some K \<and> rowHourKey st = k}"

definition collides :: "string \<Rightarrow> bool" where
  "collides tid \<longleftrightarrow> tid \<in> set objectPrototypeKeys \<or> (\<exists>v. tid = toString_num v)"

text \<open>
  The number of distinct trip ids with a retained stop time of group \<open>K\<close> in hour \<open>h\<close>.
\<close>

definition distinctTrips ::
  "(string \<rightharpoonup> trip_row) \<Rightarrow> stop_time_row list \<Rightarrow> string \<Rightarrow> nat \<Rightarrow> nat" where
  "distinctTrips tripInfo rows K h =
     card {tid. \<exists>st \<in> set rows. tid = st_trip_id st \<and> rowKey tripInfo st = Some K \<and>
        (\<exists>time. timeOf st = Some time \<and> hourOf time = Some (int h))}"

text \<open>The invariant of the group table after the rows processed so far.\<close>

definition groupInv ::
  "(string \<rightharpoonup> trip_row) \<Rightarrow> stop_time_row list \<Rightarrow> string \<Rightarrow> (string \<rightharpoonup> string list) \<Rightarrow> bool" where
  "groupInv tripInfo rows K tt \<longleftrightarrow>
     (\<forall>k. case tt k of
            None \<Rightarrow> tripsIn tripInfo rows K k = {}
          | Some S \<Rightarrow> S \<noteq> [] \<and> distinct S \<and> set S = tripsIn tripInfo rows K k)"

definition tableInv ::
  "(string \<rightharpoonup> trip_row) \<Rightarrow> stop_time_row list \<Rightarrow> (string \<times> group) list \<Rightarrow> bool" where
  "tableInv tripInfo rows headways \<longleftrightarrow>
     (\<forall>K. case map_of headways K of
            None \<Rightarrow> (\<forall>k. tripsIn tripInfo rows K k = {})
          | Some g \<Rightarrow> groupInv tripInfo rows K (tripTimes g))"

text \<open>Rows used as concrete inputs.\<close>

definition tripRow :: "string \<Rightarrow> string \<Rightarrow> trip_row" where
  "tripRow tid r = \<lparr>trip_id = tid, route_id = r, direction_id = ''0'', t_service_id = ''A''\<rparr>"

definition stopTimeRow :: "string \<Rightarrow> string \<Rightarrow> string \<Rightarrow> stop_time_row" where
  "stopTimeRow tid sid time =
     \<lparr>st_trip_id = tid, st_stop_id = sid, arrival_time = Some time, departure_time = Some time\<rparr>"

definition saturdayCalendar :: "calendar_row list" where
  "saturdayCalendar = [saturdayRow ''S'' ''20250830'' ''20260320'']"

text \<open>
  Two routes at one stop: trips \<open>T1\<close>, \<open>T2\<close> of route \<open>R\<close> and trip \<open>U1\<close> of route \<open>Q\<close>, all
  in hour 6, with a repeated row of \<open>T1\<close>.
\<close>

definition twoRouteTrips :: "trip_row list" where
  "twoRouteTrips = [tripRow ''T1'' ''R'', tripRow ''T2'' ''R'', tripRow ''U1'' ''Q'']"

definition twoRouteStopTimes :: "stop_time_row list" where
  "twoRouteStopTimes =
     [stopTimeRow ''T1'' ''S'' ''06:00:00'', stopTimeRow ''U1'' ''S'' ''06:05:00'',
      stopTimeRow ''T2'' ''S'' ''06:30:00'', stopTimeRow ''T1'' ''S'' ''06:00:00'']"

text \<open>Two trips of one route at one stop in hour 6, the second with the trip id \<open>6\<close>.\<close>

definition numericIdTrips :: "trip_row list" where
  "numericIdTrips = [tripRow ''T1'' ''R'', tripRow ''6'' ''R'']"

definition numericIdStopTimes :: "stop_time_row list" where
  "numericIdStopTimes = [stopTimeRow ''T1'' ''S'' ''06:00:00'', stopTimeRow ''6'' ''S'' ''06:30:00'']"

text \<open>
  Two routes at one stop in hour 6: trips \<open>T1\<close> and \<open>6\<close> of route \<open>R\<close>, trip \<open>U1\<close> of
  route \<open>Q\<close>.
\<close>

definition numericIdTwoRouteTrips :: "trip_row list" where
  "numericIdTwoRouteTrips = [tripRow ''T1'' ''R'', tripRow ''6'' ''R'', tripRow ''U1'' ''Q'']"

definition numericIdTwoRouteStopTimes :: "stop_time_row list" where
  "numericIdTwoRouteStopTimes =
     [stopTimeRow ''T1'' ''S'' ''06:00:00'', stopTimeRow ''U1'' ''S'' ''06:05:00'',
      stopTimeRow ''6'' ''S'' ''06:30:00'']"

section \<open>CatchmentResolver and CoverageMerger (seattle-transit-access.tsx)\<close>

text \<open>
  Geometries are values of a type \<open>'g\<close> the engine never looks into; a variable that may
  hold \<open>null\<close> or \<open>undefined\<close> is a \<open>'g option\<close>. The geometry library is a record of its
  functions; each call either raises (\<open>Inl\<close>) or returns (\<open>Inr\<close>). Numbers of the library
  (areas, radii) are reals; the quotients the engine forms of them are \<open>jsreal\<close>.
\<close>

datatype exn = Raised

datatype units = Kilometers

record 'g turf =
  turf_circle :: "real \<times> real \<Rightarrow> real \<Rightarrow> nat \<Rightarrow> units \<Rightarrow> exn + 'g"
  turf_union :: "'g option \<Rightarrow> 'g option \<Rightarrow> exn + 'g option"
  turf_area :: "'g option \<Rightarrow> exn + real"
  turf_simplify :: "'g option \<Rightarrow> real \<Rightarrow> bool \<Rightarrow> exn + 'g option"
  turf_intersect :: "'g option \<Rightarrow> 'g option \<Rightarrow> exn + 'g option"
  turf_difference :: "'g option \<Rightarrow> 'g option \<Rightarrow> exn + 'g option"
  turf_booleanIntersects :: "'g option \<Rightarrow> 'g option \<Rightarrow> exn + bool"
  turf_booleanWithin :: "'g option \<Rightarrow> 'g option \<Rightarrow> exn + bool"

definition HALF_MILE_METERS :: real where
  "HALF_MILE_METERS = 804672 / 1000"

text \<open>An entry of the \<open>isochrones\<close> map: the contours of one stop, each possibly missing.\<close>

record 'g iso_entry =
  isochrone_10min :: "'g option"
  isochrone_5min :: "'g option"

text \<open>
  \<open>stop.id || stop.stop_id\<close>, its rendering in a template string, and \<open>isochrones.get\<close>
  (the keys of the map are strings, so \<open>undefined\<close> is not found).
\<close>

definition stopIdOf :: "stop \<Rightarrow> string option" where
  "stopIdOf s = (if truthy (s_id s) then s_id s else s_stop_id s)"

definition template :: "string option \<Rightarrow> string" where
  "template v = (case v of None \<Rightarrow> ''undefined'' | Some s \<Rightarrow> s)"

definition isochronesGet :: "(string \<rightharpoonup> 'g iso_entry) \<Rightarrow> string option \<Rightarrow> 'g iso_entry option" where
  "isochronesGet isochrones key = (case key of None \<Rightarrow> None | Some k \<Rightarrow> isochrones k)"

definition isochroneYear :: "string \<Rightarrow> stop \<Rightarrow> string" where
  "isochroneYear year s = (if year = ''2027'' \<and> \<not> s_isFuture s then ''2025'' else year)"

definition possibleKeys :: "stop \<Rightarrow> string \<Rightarrow> string option list" where
  "possibleKeys s year =
     [Some (isochroneYear year s @ ''_soundtransit_'' @ template (stopIdOf s)),
      Some (isochroneYear year s @ ''_metro_'' @ template (stopIdOf s)),
      stopIdOf s]"

text \<open>
  \<^verbatim>\<open>for (const key of possibleKeys) { const isoData = isochrones.get(key);
       if (isoData && isoData.isochrone_10min) return isoData.isochrone_10min; }
     return null;\<close>
\<close>

fun firstIsochrone :: "(string \<rightharpoonup> 'g iso_entry) \<Rightarrow> string option list \<Rightarrow> 'g option" where
  "firstIsochrone isochrones [] = None"
| "firstIsochrone isochrones (key # keys) =
     (case isochronesGet isochrones key of
        None \<Rightarrow> firstIsochrone isochrones keys
      | Some isoData \<Rightarrow>
          (case isochrone_10min isoData of
             None \<Rightarrow> firstIsochrone isochrones keys
           | Some p \<Rightarrow> Some p))"

definition findIsochroneForStop :: "(string \<rightharpoonup> 'g iso_entry) \<Rightarrow> stop \<Rightarrow> string \<Rightarrow> 'g option" where
  "findIsochroneForStop isochrones s year = firstIsochrone isochrones (possibleKeys s year)"

text \<open>The callback of \<open>stopList.map\<close>: the isochrone if there is one, else the circle.\<close>

definition walkshedOf ::
  "'g turf \<Rightarrow> (string \<rightharpoonup> 'g iso_entry) \<Rightarrow> string \<Rightarrow> stop \<Rightarrow> exn + 'g" where
  "walkshedOf turf isochrones selectedYear s =
     (case findIsochroneForStop isochrones s selectedYear of
        Some isochronePolygon \<Rightarrow> Inr isochronePolygon
      | None \<Rightarrow> turf_circle turf (s_lon s, s_lat s) (HALF_MILE_METERS / 1000) 32 Kilometers)"

text \<open>\<open>Array.prototype.map\<close> with a callback that may raise: the first exception ends it.\<close>

fun mapRaising :: "('a \<Rightarrow> exn + 'b) \<Rightarrow> 'a list \<Rightarrow> exn + 'b list" where
  "mapRaising f [] = Inr []"
| "mapRaising f (x # xs) =
     (case f x of
        Inl e \<Rightarrow> Inl e
      | Inr y \<Rightarrow> (case mapRaising f xs of Inl e \<Rightarrow> Inl e | Inr ys \<Rightarrow> Inr (y # ys)))"

text \<open>
  \<^verbatim>\<open>let union = walksheds[0];
     for (let i = 1; i < walksheds.length; i++) {
       try { union = window.turf.union(union, walksheds[i]); } catch { continue; } }\<close>
  The variable \<open>union\<close> is \<open>unioned\<close> here.
\<close>

function unionLoop :: "'g turf \<Rightarrow> 'g list \<Rightarrow> nat \<Rightarrow> 'g option \<Rightarrow> 'g option" where
  "unionLoop turf walksheds i unioned =
     (if i < length walksheds then
        (case turf_union turf unioned (Some (walksheds ! i)) of
           Inl e \<Rightarrow> unionLoop turf walksheds (Suc i) unioned
         | Inr u \<Rightarrow> unionLoop turf walksheds (Suc i) u)
      else unioned)"
  by pat_completeness auto
termination
  by (relation "measure (\<lambda>(t, ws, i, u). length ws - i)") auto

declare unionLoop.simps [simp del]

definition mergeWalksheds :: "'g turf \<Rightarrow> 'g list \<Rightarrow> 'g option" where
  "mergeWalksheds turf walksheds =
     unionLoop turf walksheds 1 (case walksheds of [] \<Rightarrow> None | w # ws \<Rightarrow> Some w)"

text \<open>
  A number that is a real or not finite (\<open>None\<close>: \<open>NaN\<close> or an infinity). Sums and products
  with a value that is not finite are not finite, and so is a quotient by 0.
\<close>

type_synonym jsreal = "real option"

definition jsAdd :: "jsreal \<Rightarrow> jsreal \<Rightarrow> jsreal" where
  "jsAdd a b = (case (a, b) of (Some x, Some y) \<Rightarrow> Some (x + y) | _ \<Rightarrow> None)"

definition jsMul :: "jsreal \<Rightarrow> jsreal \<Rightarrow> jsreal" where
  "jsMul a b = (case (a, b) of (Some x, Some y) \<Rightarrow> Some (x * y) | _ \<Rightarrow> None)"

definition jsDiv :: "real \<Rightarrow> real \<Rightarrow> jsreal" where
  "jsDiv x y = (if y = 0 then None else Some (x / y))"

text \<open>
  \<open>coveragePercent\<close> is a string: the literal \<open>'0'\<close>, \<open>x.toFixed(1)\<close>, or
  \<open>x.toFixed(1) + '+'\<close>; the number formatted is kept.
\<close>

datatype percent = Zero | ToFixed1 jsreal | ToFixed1Plus jsreal

record 'g coverage =
  mergedPolygon :: "'g option"
  mergedPolygonOutOfBounds :: "'g option"
  coveragePercent :: percent

text \<open>
  The unclipped measurement (no boundary, or after a failed clipping); \<open>oob\<close> is the value
  \<open>mergedPolygonOutOfBounds\<close> has at that point. An exception of \<open>area\<close> goes to the outer
  \<open>catch\<close>.
\<close>

definition unclipped :: "'g turf \<Rightarrow> 'g option \<Rightarrow> 'g option \<Rightarrow> exn + 'g coverage" where
  "unclipped turf unioned oob =
     (case turf_area turf unioned of
        Inl e \<Rightarrow> Inl e
      | Inr areaSqMeters \<Rightarrow>
          Inr \<lparr>mergedPolygon = unioned, mergedPolygonOutOfBounds = oob,
               coveragePercent = ToFixed1 (jsMul (jsDiv areaSqMeters 217000000) (Some 100))\<rparr>)"

text \<open>
  The inner \<open>try\<close> block. An exception leaves it with the value of
  \<open>mergedPolygonOutOfBounds\<close> assigned so far (\<open>Inl\<close>).
\<close>

definition clipToBoundary ::
  "'g turf \<Rightarrow> 'g option \<Rightarrow> 'g option \<Rightarrow> real \<Rightarrow> 'g option + 'g coverage" where
  "clipToBoundary turf unioned feature seattleBoundaryAreaSqMeters =
     (case turf_simplify turf feature (1 / 1000) False of
        Inl e \<Rightarrow> Inl None
      | Inr simplifiedBoundary \<Rightarrow>
          (let clipped = (case turf_intersect turf unioned simplifiedBoundary of
                            Inl intersectErr \<Rightarrow> None | Inr c \<Rightarrow> c);
               oob = (case turf_difference turf unioned simplifiedBoundary of
                        Inl diffErr \<Rightarrow> None | Inr diff \<Rightarrow> diff)
           in case clipped of
                Some c \<Rightarrow>
                  (case turf_area turf (Some c) of
                     Inl e \<Rightarrow> Inl oob
                   | Inr clippedAreaSqMeters \<Rightarrow>
                       Inr \<lparr>mergedPolygon = Some c, mergedPolygonOutOfBounds = oob,
                            coveragePercent =
                              ToFixed1 (jsMul (jsDiv clippedAreaSqMeters seattleBoundaryAreaSqMeters)
                                          (Some 100))\<rparr>)
              | None \<Rightarrow>
                  Inr \<lparr>mergedPolygon = None, mergedPolygonOutOfBounds = unioned,
                       coveragePercent = Zero\<rparr>))"

text \<open>
  The boundary is \<open>null\<close> or a feature collection, given by the list of its features;
  \<open>boundary.features[0]\<close> is \<open>undefined\<close> when the list is empty.
\<close>

definition firstFeature :: "'g list \<Rightarrow> 'g option" where
  "firstFeature features = (case features of [] \<Rightarrow> None | f # fs \<Rightarrow> Some f)"

text \<open>The outer \<open>try\<close> block.\<close>

definition coverageTry ::
  "'g turf \<Rightarrow> (string \<rightharpoonup> 'g iso_entry) \<Rightarrow> string \<Rightarrow> stop list \<Rightarrow> 'g list option \<Rightarrow> exn + 'g coverage" where
  "coverageTry turf isochrones selectedYear stopList boundary =
     (case mapRaising (walkshedOf turf isochrones selectedYear) stopList of
        Inl e \<Rightarrow> Inl e
      | Inr walksheds \<Rightarrow>
          (case boundary of
             None \<Rightarrow> unclipped turf (mergeWalksheds turf walksheds) None
           | Some features \<Rightarrow>
               (case turf_area turf (firstFeature features) of
                  Inl e \<Rightarrow> Inl e
                | Inr seattleBoundaryAreaSqMeters \<Rightarrow>
                    (case clipToBoundary turf (mergeWalksheds turf walksheds)
                            (firstFeature features) seattleBoundaryAreaSqMeters of
                       Inr r \<Rightarrow> Inr r
                     | Inl oob \<Rightarrow> unclipped turf (mergeWalksheds turf walksheds) oob))))"

text \<open>\<open>turfLoaded\<close> stands for \<open>turfLoaded && window.turf\<close>.\<close>

definition calculateWalkshedCoverage ::
  "bool \<Rightarrow> 'g turf \<Rightarrow> (string \<rightharpoonup> 'g iso_entry) \<Rightarrow> string \<Rightarrow> stop list \<Rightarrow> 'g list option \<Rightarrow> 'g coverage" where
  "calculateWalkshedCoverage turfLoaded turf isochrones selectedYear stopList boundary =
     (if \<not> turfLoaded \<or> length stopList = 0 then
        \<lparr>mergedPolygon = None, mergedPolygonOutOfBounds = None, coveragePercent = Zero\<rparr>
      else
        case coverageTry turf isochrones selectedYear stopList boundary of
          Inr r \<Rightarrow> r
        | Inl err \<Rightarrow>
            \<lparr>mergedPolygon = None, mergedPolygonOutOfBounds = None,
             coveragePercent =
               ToFixed1Plus
                 (jsMul (jsDiv (real (length stopList) * pi * HALF_MILE_METERS ^ 2) 217000000)
                    (Some 100))\<rparr>)"

text \<open>The fold the reduction is specified by: a failing union keeps the accumulator.\<close>

definition unionOrKeep :: "'g turf \<Rightarrow> 'g option \<Rightarrow> 'g \<Rightarrow> 'g option" where
  "unionOrKeep turf acc w = (case turf_union turf acc (Some w) of Inl e \<Rightarrow> acc | Inr u \<Rightarrow> u)"


subsection \<open>A geometry library on sets of grid cells, for concrete inputs\<close>

text \<open>
  A geometry is a list of distinct cell numbers and its area is the number of cells.
  \<open>union\<close> raises when its second operand contains cell 13; \<open>simplify\<close> drops cell 4;
  \<open>intersect\<close> and \<open>difference\<close> return \<open>null\<close> for an empty result; \<open>circle\<close> gives cell
  100 for the radius \<open>0.804672\<close> with 32 steps and raises otherwise. Every function raises
  on \<open>null\<close>.
\<close>

definition cellsOp :: "(nat list \<Rightarrow> nat list \<Rightarrow> 'a) \<Rightarrow> nat list option \<Rightarrow> nat list option \<Rightarrow> exn + 'a" where
  "cellsOp f a b = (case (a, b) of (Some x, Some y) \<Rightarrow> Inr (f x y) | _ \<Rightarrow> Inl Raised)"

definition nonEmpty :: "nat list \<Rightarrow> nat list option" where
  "nonEmpty xs = (if xs = [] then None else Some xs)"

definition gridTurf :: "nat list turf" where
  "gridTurf =
     \<lparr>turf_circle = (\<lambda>c r n u. if r = 804672 / 1000000 \<and> n = 32 then Inr [100] else Inl Raised),
      turf_union = (\<lambda>a b. if b = None \<or> 13 \<in> set (the b) then Inl Raised
                            else cellsOp (\<lambda>x y. Some (remdups (x @ y))) a b),
      turf_area = (\<lambda>a. case a of None \<Rightarrow> Inl Raised | Some x \<Rightarrow> Inr (real (length x))),
      turf_simplify = (\<lambda>a tol hq. case a of None \<Rightarrow> Inl Raised
                                     | Some x \<Rightarrow> Inr (Some (filter (\<lambda>c. c \<noteq> 4) x))),
      turf_intersect = cellsOp (\<lambda>x y. nonEmpty (filter (\<lambda>c. c \<in> set y) x)),
      turf_difference = cellsOp (\<lambda>x y. nonEmpty (filter (\<lambda>c. c \<notin> set y) x)),
      turf_booleanIntersects = cellsOp (\<lambda>x y. \<exists>c \<in> set x. c \<in> set y),
      turf_booleanWithin = cellsOp (\<lambda>x y. \<forall>c \<in> set x. c \<in> set y)\<rparr>"

definition plainStop :: "string \<Rightarrow> stop" where
  "plainStop i =
     \<lparr>s_id = Some i, s_stop_id = None, s_name = i, s_lat = 47, s_lon = - 122, s_isFuture = False,
      s_hourlyTrips = None\<rparr>"

definition contour :: "nat list \<Rightarrow> nat list iso_entry" where
  "contour p = \<lparr>isochrone_10min = Some p, isochrone_5min = None\<rparr>"

definition gridIsochrones :: "string \<rightharpoonup> nat list iso_entry" where
  "gridIsochrones =
     map_of [(''2025_metro_a'', contour [1]), (''2025_soundtransit_a'', contour [4, 5]),
             (''2025_metro_b'', contour [13]), (''2025_metro_c'', contour [2]),
             (''2025_metro_d'', contour [7, 8]),
             (''2025_soundtransit_e'', \<lparr>isochrone_10min = None, isochrone_5min = Some [9]\<rparr>),
             (''e'', contour [6])]"

section \<open>PopulationApportioner (loadCensusData in seattle-transit-access.tsx)\<close>

text \<open>
  A property of a GeoJSON feature that is absent, a string or an integer. A census block is
  a feature with the properties \<open>TOT_POP\<close> and \<open>Place\<close>; \<open>feature\<close> is the block as the
  geometry library sees it.
\<close>

datatype jsprop = PUndefined | PString string | PNumber int

record 'g block =
  TOT_POP :: jsprop
  Place :: "string option"
  feature :: 'g

text \<open>
  \<open>parseInt(block.properties.TOT_POP || '0')\<close>: the falsy values \<open>undefined\<close>, \<open>''\<close> and
  \<open>0\<close> give \<open>'0'\<close>; an integer is parsed from its own decimal form.
\<close>

definition populationOf :: "jsprop \<Rightarrow> jsint" where
  "populationOf v =
     (case v of
        PUndefined \<Rightarrow> parseInt ''0''
      | PString s \<Rightarrow> parseInt (if s = [] then ''0'' else s)
      | PNumber n \<Rightarrow> (if n = 0 then parseInt ''0'' else Some n))"

definition ofInt :: "jsint \<Rightarrow> jsreal" where
  "ofInt v = map_option real_of_int v"

text \<open>
  The callback of \<open>features.forEach\<close>, on the pair
  \<open>(populationInWalkshed, blocksInWalkshed)\<close>. An exception of the geometry library inside
  the \<open>try\<close> skips the block.
\<close>

definition apportionBlock ::
  "'g turf \<Rightarrow> 'g option \<Rightarrow> jsreal \<times> nat \<Rightarrow> 'g block \<Rightarrow> jsreal \<times> nat" where
  "apportionBlock turf walkshedPolygon acc b =
     (let population = populationOf (TOT_POP b);
          populationInWalkshed = fst acc;
          blocksInWalkshed = snd acc
      in
      if Place b \<noteq> Some ''Seattle'' \<or> (case population of None \<Rightarrow> False | Some p \<Rightarrow> p < 1)
      then acc
      else
        case turf_booleanIntersects turf (Some (feature b)) walkshedPolygon of
          Inl err \<Rightarrow> acc
        | Inr intersects \<Rightarrow>
            if intersects then
              (case turf_booleanWithin turf (Some (feature b)) walkshedPolygon of
                 Inl err \<Rightarrow> acc
               | Inr fullyWithin \<Rightarrow>
                   if fullyWithin then
                     (jsAdd populationInWalkshed (ofInt population), blocksInWalkshed + 1)
                   else
                     (case turf_area turf (Some (feature b)) of
                        Inl err \<Rightarrow> acc
                      | Inr blockArea \<Rightarrow>
                          (case turf_intersect turf (Some (feature b)) walkshedPolygon of
                             Inl err \<Rightarrow> acc
                           | Inr None \<Rightarrow>
                               (jsAdd populationInWalkshed (ofInt population),
                                blocksInWalkshed + 1)
                           | Inr (Some intersection) \<Rightarrow>
                               (case turf_area turf (Some intersection) of
                                  Inl err \<Rightarrow> acc
                                | Inr intersectionArea \<Rightarrow>
                                    (jsAdd populationInWalkshed
                                       (jsMul (ofInt population) (jsDiv intersectionArea blockArea)),
                                     blocksInWalkshed + 1)))))
            else acc)"

definition apportionBlocks :: "'g turf \<Rightarrow> 'g option \<Rightarrow> 'g block list \<Rightarrow> jsreal \<times> nat" where
  "apportionBlocks turf walkshedPolygon blocks =
     foldl (apportionBlock turf walkshedPolygon) (Some 0, 0) blocks"

text \<open>
  A candidate unit is a block of the target region with a population of at least 1;
  \<open>candidatePopulation\<close> is its population, and 0 for any other block.
\<close>

definition candidate :: "'g block \<Rightarrow> int \<Rightarrow> bool" where
  "candidate b p \<longleftrightarrow> Place b = Some ''Seattle'' \<and> populationOf (TOT_POP b) = Some p \<and> 1 \<le> p"

definition candidatePopulation :: "'g block \<Rightarrow> real" where
  "candidatePopulation b =
     (if Place b = Some ''Seattle'' then
        (case populationOf (TOT_POP b) of
           None \<Rightarrow> 0
         | Some p \<Rightarrow> (if 1 \<le> p then real_of_int p else 0))
      else 0)"

text \<open>
  What the bound on the total needs of a block: a block of the target region has a
  population that is a number, and when the block and its intersection with the coverage
  polygon have areas, the block's area is positive and the intersection's is no larger.
\<close>

definition measured :: "'g turf \<Rightarrow> 'g option \<Rightarrow> 'g block \<Rightarrow> bool" where
  "measured turf w c \<longleftrightarrow>
     (Place c = Some ''Seattle'' \<longrightarrow> populationOf (TOT_POP c) \<noteq> None) \<and>
     (\<forall>ba i ia. turf_area turf (Some (feature c)) = Inr ba \<and>
        turf_intersect turf (Some (feature c)) w = Inr (Some i) \<and>
        turf_area turf (Some i) = Inr ia \<longrightarrow> 0 < ba \<and> ia \<le> ba)"

text \<open>Blocks on the grid, and a library whose \<open>intersect\<close> always returns \<open>null\<close>.\<close>

definition seattleBlock :: "string \<Rightarrow> nat list \<Rightarrow> nat list block" where
  "seattleBlock pop cells = \<lparr>TOT_POP = PString pop, Place = Some ''Seattle'', feature = cells\<rparr>"

definition censusBlocks :: "nat list block list" where
  "censusBlocks =
     [seattleBlock ''10'' [1], seattleBlock ''20'' [9], seattleBlock ''7'' [3, 4],
      seattleBlock ''0'' [2], \<lparr>TOT_POP = PNumber 50, Place = Some ''Bellevue'', feature = [2]\<rparr>]"

definition nullIntersectTurf :: "nat list turf" where
  "nullIntersectTurf = gridTurf\<lparr>turf_intersect := (\<lambda>a b. Inr None)\<rparr>"

section \<open>Properties of the classifier\<close>

lemma frequentLoop_char:
  "h \<le> 19 \<Longrightarrow>
   frequentLoop t h tot \<longleftrightarrow>
     (\<forall>k \<in> {h ..< 19}. 4 \<le> or0 (t (toString_nat k))) \<and>
     77 \<le> tot + (\<Sum>k = h ..< 19. or0 (t (toString_nat k)))"
proof (induction t h tot rule: frequentLoop.induct)
  case (1 t h tot)
  show ?case
  proof (cases "h < 19")
    case False
    with "1.prems" have "h = 19" by simp
    then show ?thesis by (subst frequentLoop.simps) (simp add: not_less)
  next
    case lt: True
    show ?thesis
    proof (cases "or0 (t (toString_nat h)) < 4")
      case True
      then have "\<not> (\<forall>k \<in> {h ..< 19}. 4 \<le> or0 (t (toString_nat k)))"
        using lt by (intro notI) (drule bspec [of _ _ h], simp_all)
      with True lt show ?thesis by (subst frequentLoop.simps) simp
    next
      case False
      have split: "{h ..< 19} = insert h {Suc h ..< 19}"
        using lt by auto
      have sum: "(\<Sum>k = h ..< 19. or0 (t (toString_nat k))) =
                 or0 (t (toString_nat h)) + (\<Sum>k = Suc h ..< 19. or0 (t (toString_nat k)))"
        using lt by (simp add: sum.atLeast_Suc_lessThan)
      have IH: "frequentLoop t (Suc h) (tot + or0 (t (toString_nat h))) \<longleftrightarrow>
                  (\<forall>k \<in> {Suc h ..< 19}. 4 \<le> or0 (t (toString_nat k))) \<and>
                  77 \<le> (tot + or0 (t (toString_nat h))) +
                        (\<Sum>k = Suc h ..< 19. or0 (t (toString_nat k)))"
        using "1.IH" [OF lt False] lt by simp
      have "frequentLoop t h tot = frequentLoop t (Suc h) (tot + or0 (t (toString_nat h)))"
        using lt False by (subst frequentLoop.simps) simp
      then show ?thesis
        using IH False by (simp add: split sum add.assoc not_less)
    qed
  qed
qed

lemma futureLoop_char:
  "h \<le> 19 \<Longrightarrow>
   futureLoop t h \<longleftrightarrow> (\<forall>k \<in> {h ..< 19}. 4 \<le> or0 (t (toString_nat k)))"
proof (induction t h rule: futureLoop.induct)
  case (1 t h)
  show ?case
  proof (cases "h < 19")
    case False
    with "1.prems" have "h = 19" by simp
    then show ?thesis by (subst futureLoop.simps) simp
  next
    case lt: True
    show ?thesis
    proof (cases "or0 (t (toString_nat h)) < 4")
      case True
      then have "\<not> (\<forall>k \<in> {h ..< 19}. 4 \<le> or0 (t (toString_nat k)))"
        using lt by (intro notI) (drule bspec [of _ _ h], simp_all)
      with True lt show ?thesis by (subst futureLoop.simps) simp
    next
      case False
      have split: "{h ..< 19} = insert h {Suc h ..< 19}"
        using lt by auto
      have "futureLoop t h = futureLoop t (Suc h)"
        using lt False by (subst futureLoop.simps) simp
      then show ?thesis
        using "1.IH" [OF lt False] lt False by (simp add: split not_less)
    qed
  qed
qed

lemma hours_6_18: "{6 .. 18::nat} = {6 ..< 19}"
  by auto

subsection \<open>Evaluating the window 6 to 18 on concrete profiles\<close>

lemma upt_6_19: "[6 ..< 19] = [6,7,8,9,10,11,12,13,14,15,16,17,18::nat]"
  by (simp add: upt_rec_numeral)

lemma set_6_18: "{6 .. 18} = set [6,7,8,9,10,11,12,13,14,15,16,17,18::nat]"
proof -
  have "{6 .. 18::nat} = set [6 ..< 19]" by (simp only: set_upt hours_6_18)
  then show ?thesis by (simp only: upt_6_19)
qed

lemma sum_6_18:
  "(\<Sum>h = 6 .. 18::nat. f h) =
     f 6 + f 7 + f 8 + f 9 + f 10 + f 11 + f 12 + f 13 + f 14 + f 15 + f 16 + f 17 + (f 18 :: int)"
  unfolding set_6_18 by (simp add: add.assoc)

lemma ball_6_18: "(\<forall>h \<in> {6 .. 18::nat}. P h) \<longleftrightarrow> list_all P [6 ..< 19]"
  by (simp only: list_all_iff set_upt hours_6_18)

lemmas window_eval =
  tripsAt_def profileOf_def regularStop_def futureStop_def upt_6_19 toString_nat.simps
  digit_char_def or0_def set_6_18 sum_6_18

lemma isFrequent_iff:
  "isFrequent s \<longleftrightarrow>
     (\<forall>h \<in> {6 .. 18}. 4 \<le> tripsAt (hourly_trips s) h) \<and>
     77 \<le> (\<Sum>h = 6 .. 18. tripsAt (hourly_trips s) h)"
proof (cases "hourly_trips s")
  case None
  then show ?thesis by (simp add: isFrequent_def tripsAt_def)
next
  case (Some t)
  then show ?thesis
    using frequentLoop_char [of 6 t 0]
    by (simp add: isFrequent_def tripsAt_def hours_6_18)
qed

lemma futureStopOk_iff:
  "futureStopOk s \<longleftrightarrow>
     enabled s \<noteq> Some False \<and> (\<forall>h \<in> {6 .. 18}. 4 \<le> tripsAt (fj_hourly_trips s) h)"
proof (cases "fj_hourly_trips s")
  case None
  then show ?thesis
    using futureLoop_char [of 6 Map.empty]
    by (simp add: futureStopOk_def tripsAt_def hours_6_18 or0_def)
next
  case (Some t)
  then show ?thesis
    using futureLoop_char [of 6 t]
    by (simp add: futureStopOk_def tripsAt_def hours_6_18)
qed

text \<open>
  C1. A stop of the schedule data is classified frequent exactly when every hour of 6 to 18
  has at least 4 trips (a missing hour, or a missing profile, reads as 0) and the 13 counts
  sum to at least 77. So a profile with every hour at least 4 and total 77 passes, one with
  total 76 fails, and one with an hour at 3 fails whatever its total.
\<close>

theorem C1_frequent_threshold:
  "(isFrequent s \<longleftrightarrow>
      (\<forall>h \<in> {6 .. 18}. 4 \<le> tripsAt (hourly_trips s) h) \<and>
      77 \<le> (\<Sum>h = 6 .. 18. tripsAt (hourly_trips s) h)) \<and>
   ((\<forall>h \<in> {6 .. 18}. 4 \<le> tripsAt (hourly_trips s) h) \<and>
      (\<Sum>h = 6 .. 18. tripsAt (hourly_trips s) h) = 77 \<longrightarrow> isFrequent s) \<and>
   ((\<Sum>h = 6 .. 18. tripsAt (hourly_trips s) h) = 76 \<longrightarrow> \<not> isFrequent s) \<and>
   ((\<exists>h \<in> {6 .. 18}. tripsAt (hourly_trips s) h = 3) \<longrightarrow> \<not> isFrequent s)"
proof -
  have "\<not> isFrequent s" if "\<exists>h \<in> {6 .. 18}. tripsAt (hourly_trips s) h = 3"
  proof -
    from that obtain h where "h \<in> {6 .. 18}" "tripsAt (hourly_trips s) h = 3" by blast
    then have "\<not> (\<forall>h \<in> {6 .. 18}. 4 \<le> tripsAt (hourly_trips s) h)"
      by (intro notI) (drule bspec [of _ _ h], simp_all)
    then show ?thesis by (simp add: isFrequent_iff)
  qed
  then show ?thesis by (simp add: isFrequent_iff)
qed

theorem C1_frequent_threshold_witness:
  "(list_all (\<lambda>h. 4 \<le> tripsAt (Some (profileOf [6,6,6,6,6,6,6,6,6,6,6,6,5])) h) [6 ..< 19] \<and>
    (\<Sum>h = 6 .. 18. tripsAt (Some (profileOf [6,6,6,6,6,6,6,6,6,6,6,6,5])) h) = 77 \<and>
    isFrequent (regularStop (profileOf [6,6,6,6,6,6,6,6,6,6,6,6,5]))) \<and>
   (list_all (\<lambda>h. 4 \<le> tripsAt (Some (profileOf [6,6,6,6,6,6,6,6,6,6,6,5,5])) h) [6 ..< 19] \<and>
    (\<Sum>h = 6 .. 18. tripsAt (Some (profileOf [6,6,6,6,6,6,6,6,6,6,6,5,5])) h) = 76 \<and>
    \<not> isFrequent (regularStop (profileOf [6,6,6,6,6,6,6,6,6,6,6,5,5]))) \<and>
   (tripsAt (Some (profileOf [9,9,9,9,3,9,9,9,9,9,9,9,9])) 10 = 3 \<and>
    (\<Sum>h = 6 .. 18. tripsAt (Some (profileOf [9,9,9,9,3,9,9,9,9,9,9,9,9])) h) = 111 \<and>
    \<not> isFrequent (regularStop (profileOf [9,9,9,9,3,9,9,9,9,9,9,9,9])))"
proof -
  let ?a = "regularStop (profileOf [6,6,6,6,6,6,6,6,6,6,6,6,5])"
  let ?b = "regularStop (profileOf [6,6,6,6,6,6,6,6,6,6,6,5,5])"
  let ?c = "regularStop (profileOf [9,9,9,9,3,9,9,9,9,9,9,9,9])"
  have a: "(\<forall>h \<in> {6 .. 18}. 4 \<le> tripsAt (hourly_trips ?a) h) \<and>
           (\<Sum>h = 6 .. 18. tripsAt (hourly_trips ?a) h) = 77"
    by (simp add: window_eval)
  have b: "(\<forall>h \<in> {6 .. 18}. 4 \<le> tripsAt (hourly_trips ?b) h) \<and>
           (\<Sum>h = 6 .. 18. tripsAt (hourly_trips ?b) h) = 76"
    by (simp add: window_eval)
  have c: "tripsAt (hourly_trips ?c) 10 = 3 \<and> (\<Sum>h = 6 .. 18. tripsAt (hourly_trips ?c) h) = 111"
    by (simp add: window_eval)
  have c': "\<exists>h \<in> {6 .. 18}. tripsAt (hourly_trips ?c) h = 3"
    using c by (intro bexI [of _ 10]) simp_all
  have hs: "hourly_trips (regularStop p) = Some p" for p
    by (simp add: regularStop_def)
  from a b c c' C1_frequent_threshold [of ?a] C1_frequent_threshold [of ?b]
    C1_frequent_threshold [of ?c]
  show ?thesis unfolding hs ball_6_18 by blast
qed

text \<open>
  C10. A future stop is admitted exactly when its \<open>enabled\<close> flag is not \<open>false\<close> and every
  hour of 6 to 18 has at least 4 trips; in the 2027 scenario every admitted stop of the
  loaded file is in the frequent-stop set. The total is not examined: the future stop with
  4 trips in each of the 13 hours (total 52) is in the set, the stop of the schedule data
  with the same profile is not.
\<close>

theorem C10_future_stop_no_total:
  "(futureStopOk f \<longleftrightarrow>
      enabled f \<noteq> Some False \<and> (\<forall>h \<in> {6 .. 18}. 4 \<le> tripsAt (fj_hourly_trips f) h)) \<and>
   (f \<in> set stops \<and> enabled f \<noteq> Some False \<and>
      (\<forall>h \<in> {6 .. 18}. 4 \<le> tripsAt (fj_hourly_trips f) h) \<longrightarrow>
      toFutureStop f \<in> set (finalStopList allStops ''2027'' (FutureData stops))) \<and>
   (\<Sum>h = 6 .. 18. tripsAt (Some (profileOf [4,4,4,4,4,4,4,4,4,4,4,4,4])) h) = 52 \<and>
   finalStopList [regularStop (profileOf [4,4,4,4,4,4,4,4,4,4,4,4,4])] ''2027''
       (FutureData [futureStop (profileOf [4,4,4,4,4,4,4,4,4,4,4,4,4])]) =
     [toFutureStop (futureStop (profileOf [4,4,4,4,4,4,4,4,4,4,4,4,4]))]"
proof -
  let ?p = "profileOf [4,4,4,4,4,4,4,4,4,4,4,4,4]"
  have sum: "(\<Sum>h = 6 .. 18. tripsAt (Some ?p) h) = 52"
    by (simp add: window_eval)
  have all4: "\<forall>h \<in> {6 .. 18}. 4 \<le> tripsAt (Some ?p) h"
    by (simp add: window_eval)
  have fut: "futureStopOk (futureStop ?p)"
    using all4 by (simp add: futureStopOk_iff) (simp add: futureStop_def)
  have reg: "\<not> isFrequent (regularStop ?p)"
    using sum by (simp add: isFrequent_iff) (simp add: regularStop_def)
  have ex: "finalStopList [regularStop ?p] ''2027'' (FutureData [futureStop ?p]) =
            [toFutureStop (futureStop ?p)]"
    using fut reg by (simp add: finalStopList_def addFutureStops_def frequentStopList_def)
  have admit: "toFutureStop f \<in> set (finalStopList allStops ''2027'' (FutureData stops))"
    if "f \<in> set stops" "futureStopOk f"
    using that by (simp add: finalStopList_def addFutureStops_def)
  show ?thesis
    using sum ex admit by (simp add: futureStopOk_iff)
qed

theorem C10_future_stop_no_total_witness:
  "enabled (futureStop (profileOf [4,4,4,4,4,4,4,4,4,4,4,4,4])) \<noteq> Some False \<and>
   list_all (\<lambda>h. 4 \<le> tripsAt (Some (profileOf [4,4,4,4,4,4,4,4,4,4,4,4,4])) h) [6 ..< 19] \<and>
   futureStopOk (futureStop (profileOf [4,4,4,4,4,4,4,4,4,4,4,4,4])) \<and>
   toFutureStop (futureStop (profileOf [4,4,4,4,4,4,4,4,4,4,4,4,4]))
     \<in> set (finalStopList [] ''2027'' (FutureData [futureStop (profileOf [4,4,4,4,4,4,4,4,4,4,4,4,4])]))"
proof -
  let ?f = "futureStop (profileOf [4,4,4,4,4,4,4,4,4,4,4,4,4])"
  have en: "enabled ?f \<noteq> Some False"
    by (simp add: futureStop_def)
  have hs: "fj_hourly_trips ?f = Some (profileOf [4,4,4,4,4,4,4,4,4,4,4,4,4])"
    by (simp add: futureStop_def)
  have all4: "\<forall>h \<in> {6 .. 18}. 4 \<le> tripsAt (fj_hourly_trips ?f) h"
    unfolding hs by (simp add: window_eval)
  have mem: "?f \<in> set [?f]" by simp
  from en all4 mem C10_future_stop_no_total [of ?f "[?f]" "[]"]
  show ?thesis unfolding hs ball_6_18 by blast
qed

section \<open>Properties of the service selection\<close>

lemma firstWednesday_returns_valid:
  assumes "firstWednesday t = Some r"
  shows "t \<noteq> None"
proof (rule firstWednesday.raw_induct [where P = "\<lambda>t r. t \<noteq> None"])
  fix f :: "jsdate \<Rightarrow> jsdate option" and t r :: jsdate
  assume IH: "\<And>x y. f x = Some y \<Longrightarrow> x \<noteq> None"
    and eq: "(if getDay t \<noteq> Some 3 then f (setDateNext t) else Some t) = Some r"
  show "t \<noteq> None"
  proof
    assume "t = None"
    with eq have "f None = Some r"
      by (simp add: getDay_def setDateNext_def)
    with IH show False by blast
  qed
next
  show "firstWednesday t = Some r" by fact
qed

lemma firstWednesday_invalid: "firstWednesday None = None"
  using firstWednesday_returns_valid [of None] by (cases "firstWednesday None") auto

lemma firstWednesday_steps:
  "(6 - t) mod 7 = int k \<Longrightarrow> firstWednesday (Some t) = Some (Some (t + int k))"
proof (induction k arbitrary: t)
  case 0
  then have "(t + 4) mod 7 = 3" by presburger
  then show ?case
    by (subst firstWednesday.simps) (simp add: getDay_def)
next
  case (Suc k)
  then have ne: "(t + 4) mod 7 \<noteq> 3" by presburger
  from Suc.prems have "(6 - (t + 1)) mod 7 = int k" by presburger
  then have "firstWednesday (Some (t + 1)) = Some (Some (t + 1 + int k))"
    by (rule Suc.IH)
  with ne show ?case
    by (subst firstWednesday.simps) (simp add: getDay_def setDateNext_def add.assoc)
qed

lemma firstWednesday_valid:
  "firstWednesday (Some t) = Some (Some (t + (6 - t) mod 7))"
proof -
  have "0 \<le> (6 - t) mod 7" by simp
  then obtain k where "(6 - t) mod 7 = int k"
    using nonneg_int_cases by blast
  then show ?thesis using firstWednesday_steps [of t k] by simp
qed

lemma last_sorted_Max:
  fixes xs :: "'a::linorder list"
  shows "sorted xs \<Longrightarrow> xs \<noteq> [] \<Longrightarrow> last xs = Max (set xs)"
proof (induction xs)
  case Nil
  then show ?case by simp
next
  case (Cons x xs)
  show ?case
  proof (cases "xs = []")
    case True
    then show ?thesis by simp
  next
    case False
    with Cons have "last xs = Max (set xs)" by simp
    moreover have "x \<le> Max (set xs)"
      using Cons.prems False by (simp add: Max_ge_iff) (meson last_in_set)
    ultimately show ?thesis
      using False by (simp add: max_def)
  qed
qed

lemma last_sort_Max:
  fixes xs :: "'a::linorder list"
  assumes "xs \<noteq> []"
  shows "last (sort xs) = Max (set xs)"
proof -
  have "set (sort xs) \<noteq> {}" using assms by simp
  then have "sort xs \<noteq> []" by (simp only: set_empty not_False_eq_True)
  then show ?thesis using last_sorted_Max [of "sort xs"] by simp
qed

text \<open>
  C5 (as stated) fails: a weekday entry with the non-empty start date \<open>unknown\<close> makes the
  year, month and day \<open>NaN\<close>, the date invalid, and the search for a Wednesday never ends.
\<close>

theorem C5_malformed_start_date_counterexample:
  "filter isWeekdayService [weekdayRow ''WKD'' ''unknown'' ''20261231''] =
     [weekdayRow ''WKD'' ''unknown'' ''20261231''] \<and>
   truthy (start_date (weekdayRow ''WKD'' ''unknown'' ''20261231'')) \<and>
   getRelevantServiceIds [weekdayRow ''WKD'' ''unknown'' ''20261231''] = None"
proof -
  have p: "parseStartDate ''unknown'' = None"
    by (simp add: parseStartDate_def substring_def parseInt_def stripSign_def isWhiteSpace_def
        parseDigits_def digitValue_def newDate_def)
  have w: "isWeekdayService (weekdayRow ''WKD'' ''unknown'' ''20261231'')"
    by (simp add: isWeekdayService_def weekdayRow_def)
  have t: "truthy (start_date (weekdayRow ''WKD'' ''unknown'' ''20261231''))"
    by (simp add: truthy_def weekdayRow_def)
  have s: "allStartDates [weekdayRow ''WKD'' ''unknown'' ''20261231''] = [''unknown'']"
    using t by (simp add: allStartDates_def) (simp add: weekdayRow_def)
  show ?thesis
    using w t by (simp add: getRelevantServiceIds_def s p firstWednesday_invalid)
qed

text \<open>
  C5 (amended). When the calendar has a weekday entry with a non-empty start date and the
  lexicographically latest such start date has numeric year, month and day fields (so that
  it gives a date, day number \<open>d0\<close>), the selection returns: it finds the first Wednesday
  \<open>w\<close> on or after that date and returns exactly the service ids of the weekday entries
  with \<open>start \<le> YYYYMMDD(w) \<le> end\<close> in string order, a missing start being \<open>0\<close> and a
  missing end \<open>99999999\<close>.
\<close>

theorem C5_first_wednesday_selection:
  assumes "wk = filter isWeekdayService calendar"
    and "starts = map the (filter truthy (map start_date wk))"
    and "starts \<noteq> []"
    and "parseStartDate (Max (set starts)) = Some d0"
  shows "\<exists>w. getRelevantServiceIds calendar =
               Some (service_id ` {s. s \<in> set wk \<and>
                  orElse (start_date s) ''0'' \<le> formatDate (Some w) \<and>
                  formatDate (Some w) \<le> orElse (end_date s) ''99999999''}) \<and>
             getDay (Some w) = Some 3 \<and> d0 \<le> w \<and>
             (\<forall>d. d0 \<le> d \<and> d < w \<longrightarrow> getDay (Some d) \<noteq> Some 3)"
proof -
  let ?w = "d0 + (6 - d0) mod 7"
  have wk: "wk \<noteq> []" using assms(2,3) by auto
  have sd: "allStartDates wk = sort starts"
    by (simp add: allStartDates_def assms(2))
  have ne: "allStartDates wk \<noteq> []"
  proof -
    have "set (sort starts) \<noteq> {}" using assms(3) by simp
    then show ?thesis unfolding sd by (simp only: set_empty not_False_eq_True)
  qed
  have latest: "last (allStartDates wk) = Max (set starts)"
    unfolding sd using assms(3) by (rule last_sort_Max)
  have fw: "firstWednesday (parseStartDate (last (allStartDates wk))) = Some (Some ?w)"
    by (simp add: latest assms(4) firstWednesday_valid)
  have res: "getRelevantServiceIds calendar =
      Some (set (map service_id (filter (activeOn (formatDate (Some ?w))) wk)))"
    using wk ne fw by (simp add: getRelevantServiceIds_def assms(1) [symmetric])
  have img: "set (map service_id (filter (activeOn (formatDate (Some ?w))) wk)) =
      service_id ` {s. s \<in> set wk \<and>
                  orElse (start_date s) ''0'' \<le> formatDate (Some ?w) \<and>
                  formatDate (Some ?w) \<le> orElse (end_date s) ''99999999''}"
    by (auto simp: activeOn_def)
  have wd: "getDay (Some ?w) = Some 3"
    by (simp add: getDay_def) presburger
  have ge: "d0 \<le> ?w" by simp
  have first: "\<forall>d. d0 \<le> d \<and> d < ?w \<longrightarrow> getDay (Some d) \<noteq> Some 3"
    by (simp add: getDay_def) presburger
  show ?thesis
    using res img wd ge first by (intro exI [of _ ?w]) simp
qed

theorem C5_first_wednesday_selection_witness:
  "map the (filter truthy (map start_date (filter isWeekdayService calendar2025))) \<noteq> [] \<and>
   parseStartDate (Max (set (map the (filter truthy (map start_date
       (filter isWeekdayService calendar2025)))))) = Some 20330 \<and>
   (\<exists>w. getRelevantServiceIds calendar2025 =
           Some (service_id ` {s. s \<in> set (filter isWeekdayService calendar2025) \<and>
              orElse (start_date s) ''0'' \<le> formatDate (Some w) \<and>
              formatDate (Some w) \<le> orElse (end_date s) ''99999999''}) \<and>
         getDay (Some w) = Some 3 \<and> 20330 \<le> w) \<and>
   getRelevantServiceIds calendar2025 = Some {''A''} \<and>
   formatDate (Some 20334) = ''20250903''"
proof -
  let ?starts = "map the (filter truthy (map start_date (filter isWeekdayService calendar2025)))"
  have ne: "?starts \<noteq> []"
    by code_simp
  have p: "parseStartDate (Max (set ?starts)) = Some 20330"
    by code_simp
  have r: "getRelevantServiceIds calendar2025 = Some {''A''}"
    by code_simp
  have f: "formatDate (Some 20334) = ''20250903''"
    by code_simp
  from C5_first_wednesday_selection [OF refl refl ne p] ne p r f
  show ?thesis by blast
qed

text \<open>
  The interval test compares strings. For a year below 1000 the year is formatted without
  leading zeros, so the Wednesday 0999-01-02 is \<open>9990102\<close> and lies outside the interval of
  the 8-character dates \<open>09990101\<close> and \<open>09991231\<close>.
\<close>

lemma formatted_date_compared_as_string:
  "map_option formatDate (firstWednesday (parseStartDate ''09990101'')) = Some ''9990102'' \<and>
   getRelevantServiceIds [weekdayRow ''A'' ''09990101'' ''09991231''] = Some {}"
  by code_simp

section \<open>Properties of the frequency aggregation\<close>

text \<open>
  C8. A calendar without an entry active on all of Monday to Friday selects the empty set
  of service ids, and the aggregation on the empty set returns the empty map: the feed's
  frequencies are empty, and both calls return.
\<close>

theorem C8_no_weekday_service_empty:
  assumes "filter isWeekdayService calendar = []"
  shows "getRelevantServiceIds calendar = Some {} \<and>
         calculateStopFrequencies stopTimes trips {} = [] \<and>
         stopFrequencies stopTimes trips calendar = Some []"
  using assms
  by (simp add: getRelevantServiceIds_def calculateStopFrequencies_def stopFrequencies_def)

theorem C8_no_weekday_service_empty_witness:
  "filter isWeekdayService saturdayCalendar = [] \<and>
   getRelevantServiceIds saturdayCalendar = Some {} \<and>
   stopFrequencies twoRouteStopTimes twoRouteTrips saturdayCalendar = Some []"
proof -
  have h: "filter isWeekdayService saturdayCalendar = []"
    by (simp add: saturdayCalendar_def saturdayRow_def isWeekdayService_def)
  from h C8_no_weekday_service_empty [OF h, of twoRouteStopTimes twoRouteTrips]
  show ?thesis by blast
qed

subsection \<open>The aggregation by stop\<close>

lemma map_upt_cong: "(\<And>h. h < n \<Longrightarrow> f h = g h) \<Longrightarrow> map f [0 ..< n] = map g [0 ..< n]"
  by simp

lemma maxProfile_single: "maxProfile [g] = hourlyTripsOf g"
  by (simp add: maxProfile_def hourlyTripsOf_def)

lemma maxProfile_snoc:
  assumes "gs \<noteq> []"
  shows "map (\<lambda>h. max (maxProfile gs ! h) (hourlyTripsOf g ! h)) [0 ..< 24] = maxProfile (gs @ [g])"
proof -
  have "max (maxProfile gs ! h) (hourlyTripsOf g ! h) =
        Max (set (map (\<lambda>g. groupCount g h) (gs @ [g])))" if "h < 24" for h
  proof -
    let ?A = "set (map (\<lambda>g. groupCount g h) gs)"
    have fin: "finite ?A" and ne: "?A \<noteq> {}" using assms by simp_all
    have "Max (insert (groupCount g h) ?A) = max (groupCount g h) (Max ?A)"
      using fin ne by (rule Max_insert)
    then show ?thesis
      using that by (simp add: maxProfile_def hourlyTripsOf_def max.commute)
  qed
  then show ?thesis
    unfolding maxProfile_def [of "gs @ [g]"] by (intro map_upt_cong) simp
qed

lemma aggregate_invariant:
  "distinct (map fst (stopMaxFrequenciesOf gs)) \<and>
   (\<forall>s. map_of (stopMaxFrequenciesOf gs) s =
          (if groupsOfStop gs s = [] then None else Some (maxProfile (groupsOfStop gs s))))"
proof (induction gs rule: rev_induct)
  case Nil
  show ?case by (simp add: stopMaxFrequenciesOf_def groupsOfStop_def)
next
  case (snoc g gs)
  let ?acc = "stopMaxFrequenciesOf gs"
  let ?k = "g_stop_id g"
  have step: "stopMaxFrequenciesOf (gs @ [g]) = aggregateGroup ?acc g"
    by (simp add: stopMaxFrequenciesOf_def)
  from snoc have dist: "distinct (map fst ?acc)"
    and look: "\<And>s. map_of ?acc s =
          (if groupsOfStop gs s = [] then None else Some (maxProfile (groupsOfStop gs s)))"
    by simp_all
  have other: "groupsOfStop (gs @ [g]) s = groupsOfStop gs s" if "s \<noteq> ?k" for s
    using that by (auto simp: groupsOfStop_def)
  have same: "groupsOfStop (gs @ [g]) ?k = groupsOfStop gs ?k @ [g]"
    by (simp add: groupsOfStop_def)
  show ?case
  proof (cases "groupsOfStop gs ?k = []")
    case True
    then have none: "map_of ?acc ?k = None" by (simp add: look)
    then have notin: "?k \<notin> fst ` set ?acc" by (simp add: map_of_eq_None_iff)
    have acc': "stopMaxFrequenciesOf (gs @ [g]) = ?acc @ [(?k, hourlyTripsOf g)]"
      by (simp add: step aggregateGroup_def none)
    have d: "distinct (map fst (stopMaxFrequenciesOf (gs @ [g])))"
      using dist notin by (simp add: acc')
    have l: "map_of (stopMaxFrequenciesOf (gs @ [g])) s =
          (if groupsOfStop (gs @ [g]) s = [] then None
           else Some (maxProfile (groupsOfStop (gs @ [g]) s)))" for s
    proof (cases "s = ?k")
      case True
      then show ?thesis
        using none \<open>groupsOfStop gs ?k = []\<close>
        by (simp add: acc' same maxProfile_single map_add_def)
    next
      case False
      then show ?thesis
        by (simp add: acc' other look map_add_def)
    qed
    from d l show ?thesis by blast
  next
    case False
    then have some: "map_of ?acc ?k = Some (maxProfile (groupsOfStop gs ?k))"
      by (simp add: look)
    have acc': "stopMaxFrequenciesOf (gs @ [g]) =
        AList.update ?k (maxProfile (groupsOfStop gs ?k @ [g])) ?acc"
      by (simp add: step aggregateGroup_def some maxProfile_snoc [OF False])
    have d: "distinct (map fst (stopMaxFrequenciesOf (gs @ [g])))"
      using dist by (simp add: acc' distinct_update)
    have l: "map_of (stopMaxFrequenciesOf (gs @ [g])) s =
          (if groupsOfStop (gs @ [g]) s = [] then None
           else Some (maxProfile (groupsOfStop (gs @ [g]) s)))" for s
    proof (cases "s = ?k")
      case True
      then show ?thesis by (simp add: acc' update_conv' same)
    next
      case False
      then show ?thesis by (simp add: acc' update_conv' other look)
    qed
    from d l show ?thesis by blast
  qed
qed

lemma upt_0_24:
  "[0 ..< 24] = [0,1,2,3,4,5,6,7,8,9,10,11,12,13,14,15,16,17,18,19,20,21,22,23::nat]"
  by code_simp

lemma hour_keys_distinct: "distinct (map toString_nat [0 ..< 24])"
  unfolding upt_0_24 by (simp add: toString_nat.simps digit_char_def)

lemma map_of_map_inj_on:
  "inj_on f (set xs) \<Longrightarrow> h \<in> set xs \<Longrightarrow> map_of (map (\<lambda>h. (f h, v h)) xs) (f h) = Some (v h)"
  by (induction xs) (auto simp: inj_on_def)

lemma hourlyTripsStr_hour:
  assumes "h < 24"
  shows "hourlyTripsStr v (toString_nat h) = Some (int (v ! h))"
proof -
  have "inj_on toString_nat (set [0 ..< 24])"
    using hour_keys_distinct by (simp only: distinct_map)
  moreover have "h \<in> set [0 ..< 24]" using assms by simp
  ultimately show ?thesis
    unfolding hourlyTripsStr_def by (rule map_of_map_inj_on)
qed

lemma hourlyTripsStr_nonneg: "hourlyTripsStr v k = Some n \<Longrightarrow> 0 \<le> n"
  unfolding hourlyTripsStr_def by (auto dest!: map_of_SomeD)

lemma maxProfile_nth:
  "h < 24 \<Longrightarrow> maxProfile gs ! h = Max (set (map (\<lambda>g. groupCount g h) gs))"
  by (simp add: maxProfile_def)

lemma result_lookup:
  assumes "activeServiceIds \<noteq> {}"
  shows "distinct (map fst (calculateStopFrequencies stopTimes trips activeServiceIds)) \<and>
         map_of (calculateStopFrequencies stopTimes trips activeServiceIds) s =
           (let gs = groupsOfStop
                       (map snd (stopRouteDirectionHeadways stopTimes trips activeServiceIds)) s
            in if gs = [] then None else Some (hourlyTripsStr (maxProfile gs)))"
proof -
  let ?groups = "map snd (stopRouteDirectionHeadways stopTimes trips activeServiceIds)"
  let ?acc = "stopMaxFrequenciesOf ?groups"
  have res: "calculateStopFrequencies stopTimes trips activeServiceIds =
             map (\<lambda>(stopId, hourlyTrips). (stopId, hourlyTripsStr hourlyTrips)) ?acc"
    using assms by (simp add: calculateStopFrequencies_def)
  have fst: "map fst (map (\<lambda>(stopId, hourlyTrips). (stopId, hourlyTripsStr hourlyTrips)) ?acc) =
             map fst ?acc"
    by (simp add: case_prod_unfold)
  have d: "distinct (map fst (calculateStopFrequencies stopTimes trips activeServiceIds))"
    unfolding res fst using aggregate_invariant [of ?groups] by blast
  have "map_of (map (\<lambda>(stopId, hourlyTrips). (stopId, hourlyTripsStr hourlyTrips)) ?acc) s =
        map_option hourlyTripsStr (map_of ?acc s)"
    by (simp add: map_of_map)
  then have l: "map_of (calculateStopFrequencies stopTimes trips activeServiceIds) s =
           (let gs = groupsOfStop ?groups s
            in if gs = [] then None else Some (hourlyTripsStr (maxProfile gs)))"
    using aggregate_invariant [of ?groups] by (simp add: res Let_def)
  from d l show ?thesis by (rule conjI)
qed

text \<open>
  With a non-empty set of active services, the aggregator's result has one entry for each
  stop that has a group, and none for any other stop. For every hour 0 to 23 the entry's
  profile holds the maximum, over the (route key, direction) groups of that stop, of the
  size of the trip-id set the group recorded for the hour; every value of a profile is a
  non-negative integer.
\<close>

lemma profile_is_max_of_recorded_counts:
  assumes "activeServiceIds \<noteq> {}"
    and "groups = map snd (stopRouteDirectionHeadways stopTimes trips activeServiceIds)"
    and "result = calculateStopFrequencies stopTimes trips activeServiceIds"
  shows "distinct (map fst result) \<and>
         (stopId \<in> fst ` set result \<longleftrightarrow> (\<exists>g \<in> set groups. g_stop_id g = stopId)) \<and>
         ((stopId, profile) \<in> set result \<and> h < 24 \<longrightarrow>
            profile (toString_nat h) =
              Some (int (Max ((\<lambda>g. groupCount g h) ` {g \<in> set groups. g_stop_id g = stopId})))) \<and>
         ((stopId, profile) \<in> set result \<and> profile k = Some n \<longrightarrow> 0 \<le> n)"
proof -
  let ?gs = "groupsOfStop groups stopId"
  have dist: "distinct (map fst result)"
    and look: "map_of result stopId = (if ?gs = [] then None else Some (hourlyTripsStr (maxProfile ?gs)))"
    using result_lookup [OF assms(1), of stopTimes trips stopId]
    by (simp_all add: assms(2,3) Let_def)
  have empty: "?gs = [] \<longleftrightarrow> \<not> (\<exists>g \<in> set groups. g_stop_id g = stopId)"
    by (auto simp: groupsOfStop_def filter_empty_conv)
  have "stopId \<in> fst ` set result \<longleftrightarrow> map_of result stopId \<noteq> None"
    by (simp add: map_of_eq_None_iff)
  also have "\<dots> \<longleftrightarrow> ?gs \<noteq> []"
    by (simp add: look)
  finally have dom: "stopId \<in> fst ` set result \<longleftrightarrow> (\<exists>g \<in> set groups. g_stop_id g = stopId)"
    by (simp add: empty)
  have img: "(\<lambda>g. groupCount g h) ` set ?gs =
             (\<lambda>g. groupCount g h) ` {g \<in> set groups. g_stop_id g = stopId}"
    by (auto simp: groupsOfStop_def)
  have prof: "profile = hourlyTripsStr (maxProfile ?gs)" if "(stopId, profile) \<in> set result"
  proof -
    from that dist have "map_of result stopId = Some profile" by simp
    with look show ?thesis by (cases "?gs = []") simp_all
  qed
  have val: "profile (toString_nat h) =
      Some (int (Max ((\<lambda>g. groupCount g h) ` {g \<in> set groups. g_stop_id g = stopId})))"
    if "(stopId, profile) \<in> set result" "h < 24"
    using prof [OF that(1)] that(2) by (simp add: hourlyTripsStr_hour maxProfile_nth img)
  have nonneg: "0 \<le> n" if "(stopId, profile) \<in> set result" "profile k = Some n"
    using prof [OF that(1)] that(2) hourlyTripsStr_nonneg by blast
  from dist dom val nonneg show ?thesis by blast
qed

lemma profile_is_max_of_recorded_counts_example:
  "map (\<lambda>g. (g_stop_id g, g_route_id g, groupCount g 6))
      (map snd (stopRouteDirectionHeadways twoRouteStopTimes twoRouteTrips {''A''})) =
     [(''S'', ''R'', 2), (''S'', ''Q'', 1)] \<and>
   map (\<lambda>(s, p). (s, p ''6'', p ''7'')) (calculateStopFrequencies twoRouteStopTimes twoRouteTrips {''A''}) =
     [(''S'', Some 2, Some 0)] \<and>
   (\<exists>profile. calculateStopFrequencies twoRouteStopTimes twoRouteTrips {''A''} = [(''S'', profile)] \<and>
      profile (toString_nat 6) =
        Some (int (Max ((\<lambda>g. groupCount g 6) `
          {g \<in> set (map snd (stopRouteDirectionHeadways twoRouteStopTimes twoRouteTrips {''A''})).
             g_stop_id g = ''S''}))))"
proof -
  let ?groups = "map snd (stopRouteDirectionHeadways twoRouteStopTimes twoRouteTrips {''A''})"
  let ?result = "calculateStopFrequencies twoRouteStopTimes twoRouteTrips {''A''}"
  have ne: "{''A''} \<noteq> ({} :: string set)" by simp
  have g: "map (\<lambda>g. (g_stop_id g, g_route_id g, groupCount g 6)) ?groups =
           [(''S'', ''R'', 2), (''S'', ''Q'', 1)]"
    by code_simp
  have r: "map (\<lambda>(s, p). (s, p ''6'', p ''7'')) ?result = [(''S'', Some 2, Some 0)]"
    by code_simp
  from r obtain profile where res: "?result = [(''S'', profile)]"
    by (cases ?result) auto
  then have mem: "(''S'', profile) \<in> set ?result" by simp
  have h: "(6::nat) < 24" by simp
  from profile_is_max_of_recorded_counts [OF ne refl refl, where stopId = "''S''" and h = 6]
    mem h
  have "profile (toString_nat 6) =
        Some (int (Max ((\<lambda>g. groupCount g 6) ` {g \<in> set ?groups. g_stop_id g = ''S''})))"
    by blast
  with g r res show ?thesis by blast
qed

subsection \<open>The counts of a group when no trip id collides with a key\<close>

lemma tripsIn_snoc:
  "tripsIn tripInfo (rows @ [st]) K k =
     tripsIn tripInfo rows K k \<union>
     (if rowKey tripInfo st = Some K \<and> rowHourKey st = k then {st_trip_id st} else {})"
  by (auto simp: tripsIn_def)

lemma processStopTime_no_key:
  "rowKey tripInfo st = None \<Longrightarrow> processStopTime tripInfo headways st = headways"
  by (simp add: processStopTime_def rowKey_def split: option.splits)

lemma processStopTime_key:
  assumes "rowKey tripInfo st = Some K"
  shows "\<exists>g0. (case map_of headways K of None \<Rightarrow> tripTimes g0 = Map.empty | Some g \<Rightarrow> g0 = g) \<and>
          map_of (processStopTime tripInfo headways st) =
            (map_of headways)(K \<mapsto> recordTrip (st_trip_id st)
               (hourOf (case timeOf st of None \<Rightarrow> [] | Some time \<Rightarrow> time)) g0)"
proof -
  from assms obtain time trip where t: "timeOf st = Some time"
    and tr: "tripInfo (st_trip_id st) = Some trip"
    and K: "K = groupKey (st_stop_id st) (routeKey (route_id trip)) (direction_id trip)"
    by (auto simp: rowKey_def split: option.splits)
  let ?g0 = "case map_of headways K of
               None \<Rightarrow> \<lparr>g_stop_id = st_stop_id st, g_route_id = routeKey (route_id trip),
                        g_direction_id = direction_id trip, tripTimes = Map.empty\<rparr>
             | Some g \<Rightarrow> g"
  have g0: "case map_of headways K of None \<Rightarrow> tripTimes ?g0 = Map.empty | Some g \<Rightarrow> ?g0 = g"
    by (simp split: option.splits)
  have upd: "map_of (processStopTime tripInfo headways st) =
            (map_of headways)(K \<mapsto> recordTrip (st_trip_id st)
               (hourOf (case timeOf st of None \<Rightarrow> [] | Some time \<Rightarrow> time)) ?g0)"
    using t tr by (simp add: processStopTime_def Let_def update_conv' K [symmetric])
  from g0 upd show ?thesis by (rule exI [of _ ?g0, OF conjI])
qed

lemma groupInv_record:
  assumes inv: "groupInv tripInfo rows K (tripTimes g0)"
    and key: "rowKey tripInfo st = Some K"
    and ok: "\<not> collides (st_trip_id st)"
  shows "groupInv tripInfo (rows @ [st]) K
           (tripTimes (recordTrip (st_trip_id st)
              (hourOf (case timeOf st of None \<Rightarrow> [] | Some time \<Rightarrow> time)) g0))"
proof -
  let ?tid = "st_trip_id st"
  let ?k0 = "rowHourKey st"
  have inv_k: "case tripTimes g0 k of
            None \<Rightarrow> tripsIn tripInfo rows K k = {}
          | Some S \<Rightarrow> S \<noteq> [] \<and> distinct S \<and> set S = tripsIn tripInfo rows K k" for k
    using inv unfolding groupInv_def by blast
  have free: "tripTimes g0 ?tid = None"
  proof (cases "tripTimes g0 ?tid")
    case None
    then show ?thesis .
  next
    case (Some S)
    with inv_k [of ?tid] have "tripsIn tripInfo rows K ?tid \<noteq> {}" by auto
    then obtain r where "rowHourKey r = ?tid" by (auto simp: tripsIn_def)
    then have "collides ?tid" unfolding collides_def rowHourKey_def by metis
    with ok show ?thesis by contradiction
  qed
  from ok have "?tid \<notin> set objectPrototypeKeys" by (simp add: collides_def)
  with free have guard: "\<not> propertyTruthy (tripTimes g0) ?tid"
    by (simp add: propertyTruthy_def)
  have tt: "tripTimes (recordTrip ?tid (hourOf (case timeOf st of None \<Rightarrow> [] | Some time \<Rightarrow> time)) g0) =
        (tripTimes g0)(?k0 \<mapsto> setAdd ?tid (case tripTimes g0 ?k0 of None \<Rightarrow> [] | Some S \<Rightarrow> S))"
    using guard by (simp add: recordTrip_def rowHourKey_def)
  have "case ((tripTimes g0)(?k0 \<mapsto> setAdd ?tid (case tripTimes g0 ?k0 of None \<Rightarrow> [] | Some S \<Rightarrow> S))) k of
            None \<Rightarrow> tripsIn tripInfo (rows @ [st]) K k = {}
          | Some S \<Rightarrow> S \<noteq> [] \<and> distinct S \<and> set S = tripsIn tripInfo (rows @ [st]) K k" for k
  proof (cases "k = ?k0")
    case True
    show ?thesis
      using inv_k [of ?k0] key True
      by (cases "tripTimes g0 ?k0") (auto simp: tripsIn_snoc setAdd_def)
  next
    case False
    then show ?thesis
      using inv_k [of k] key by (simp add: tripsIn_snoc split: option.splits)
  qed
  then show ?thesis unfolding groupInv_def tt by blast
qed

lemma tableInv_step:
  assumes inv: "tableInv tripInfo rows headways"
    and ok: "\<not> collides (st_trip_id st)"
  shows "tableInv tripInfo (rows @ [st]) (processStopTime tripInfo headways st)"
proof (cases "rowKey tripInfo st")
  case None
  then have same: "tripsIn tripInfo (rows @ [st]) K k = tripsIn tripInfo rows K k" for K k
    by (simp add: tripsIn_snoc)
  show ?thesis
    using inv unfolding tableInv_def groupInv_def same processStopTime_no_key [OF None] .
next
  case (Some K0)
  from processStopTime_key [OF Some, of headways] obtain g0 where
    g0: "case map_of headways K0 of None \<Rightarrow> tripTimes g0 = Map.empty | Some g \<Rightarrow> g0 = g"
    and upd: "map_of (processStopTime tripInfo headways st) =
            (map_of headways)(K0 \<mapsto> recordTrip (st_trip_id st)
               (hourOf (case timeOf st of None \<Rightarrow> [] | Some time \<Rightarrow> time)) g0)"
    by blast
  have inv_K: "case map_of headways K of
            None \<Rightarrow> (\<forall>k. tripsIn tripInfo rows K k = {})
          | Some g \<Rightarrow> groupInv tripInfo rows K (tripTimes g)" for K
    using inv unfolding tableInv_def by blast
  have "groupInv tripInfo rows K0 (tripTimes g0)"
    using inv_K [of K0] g0 by (cases "map_of headways K0") (simp_all add: groupInv_def)
  then have new: "groupInv tripInfo (rows @ [st]) K0
           (tripTimes (recordTrip (st_trip_id st)
              (hourOf (case timeOf st of None \<Rightarrow> [] | Some time \<Rightarrow> time)) g0))"
    using Some ok by (rule groupInv_record)
  have "case map_of (processStopTime tripInfo headways st) K of
            None \<Rightarrow> (\<forall>k. tripsIn tripInfo (rows @ [st]) K k = {})
          | Some g \<Rightarrow> groupInv tripInfo (rows @ [st]) K (tripTimes g)" for K
  proof (cases "K = K0")
    case True
    then show ?thesis using new by (simp add: upd)
  next
    case False
    then have same: "tripsIn tripInfo (rows @ [st]) K k = tripsIn tripInfo rows K k" for k
      using Some by (simp add: tripsIn_snoc)
    have gi: "groupInv tripInfo (rows @ [st]) K tt = groupInv tripInfo rows K tt" for tt
      unfolding groupInv_def same by (rule refl)
    show ?thesis
      using inv_K [of K] False by (simp add: upd gi same split: option.splits)
  qed
  then show ?thesis unfolding tableInv_def by blast
qed

lemma tableInv_foldl:
  assumes "\<And>st. st \<in> set rows \<Longrightarrow> \<not> collides (st_trip_id st)"
  shows "tableInv tripInfo rows (foldl (processStopTime tripInfo) [] rows)"
  using assms
proof (induction rows rule: rev_induct)
  case Nil
  show ?case by (simp add: tableInv_def tripsIn_def)
next
  case (snoc st rows)
  have "tableInv tripInfo rows (foldl (processStopTime tripInfo) [] rows)"
    by (rule snoc.IH) (simp add: snoc.prems)
  moreover have "\<not> collides (st_trip_id st)"
    by (rule snoc.prems) simp
  ultimately show ?case by (simp add: tableInv_step)
qed

lemma digit_char_inj:
  assumes "a < 10" "b < 10" "digit_char a = digit_char b"
  shows "a = b"
proof -
  have "distinct ''0123456789''" by simp
  moreover have "a < length ''0123456789''" "b < length ''0123456789''"
    using assms(1,2) by simp_all
  ultimately have "(''0123456789'' ! a = ''0123456789'' ! b) = (a = b)"
    by (rule nth_eq_iff_index_eq)
  with assms show ?thesis by (simp add: digit_char_def)
qed

lemma digit_char_digit: "digit_char d \<in> set ''0123456789''"
proof -
  have "d mod 10 < length ''0123456789''" by simp
  then have "''0123456789'' ! (d mod 10) \<in> set ''0123456789''" by (rule nth_mem)
  then show ?thesis by (simp only: digit_char_def)
qed

lemma toString_nat_digits: "set (toString_nat n) \<subseteq> set ''0123456789''"
proof (induction n rule: toString_nat.induct)
  case (1 n)
  show ?case
  proof (cases "n < 10")
    case True
    then have "toString_nat n = [digit_char n]" by (subst toString_nat.simps) simp
    then show ?thesis using digit_char_digit [of n] by simp
  next
    case False
    then have "toString_nat n = toString_nat (n div 10) @ [digit_char (n mod 10)]"
      by (subst toString_nat.simps) simp
    then show ?thesis
      using "1.IH" [OF False] digit_char_digit [of "n mod 10"] by simp
  qed
qed

lemma toString_nat_nonempty: "toString_nat n \<noteq> []"
  by (subst toString_nat.simps) simp

lemma toString_nat_inj: "toString_nat a = toString_nat b \<Longrightarrow> a = b"
proof (induction a arbitrary: b rule: toString_nat.induct)
  case (1 a)
  have unfold: "toString_nat n =
      (if n < 10 then [digit_char n] else toString_nat (n div 10) @ [digit_char (n mod 10)])" for n
    by (rule toString_nat.simps)
  show ?case
  proof (cases "a < 10")
    case a: True
    show ?thesis
    proof (cases "b < 10")
      case True
      with a "1.prems" have "digit_char a = digit_char b"
        by (simp add: unfold [of a] unfold [of b])
      with a True show ?thesis by (rule digit_char_inj)
    next
      case False
      with a "1.prems" have "[digit_char a] = toString_nat (b div 10) @ [digit_char (b mod 10)]"
        by (simp add: unfold [of a] unfold [of b])
      then have "toString_nat (b div 10) = []" by simp
      with toString_nat_nonempty show ?thesis by blast
    qed
  next
    case a: False
    show ?thesis
    proof (cases "b < 10")
      case True
      with a "1.prems" have "toString_nat (a div 10) @ [digit_char (a mod 10)] = [digit_char b]"
        by (simp add: unfold [of a] unfold [of b])
      then have "toString_nat (a div 10) = []" by simp
      with toString_nat_nonempty show ?thesis by blast
    next
      case False
      with a "1.prems" have eq: "toString_nat (a div 10) = toString_nat (b div 10)"
        and last: "digit_char (a mod 10) = digit_char (b mod 10)"
        by (simp_all add: unfold [of a] unfold [of b])
      from "1.IH" [OF a eq] have "a div 10 = b div 10" .
      moreover have "a mod 10 = b mod 10"
        using last by (intro digit_char_inj) simp_all
      ultimately show ?thesis by (metis div_mult_mod_eq)
    qed
  qed
qed

lemma hour_key_iff: "toString_num v = toString_nat h \<longleftrightarrow> v = Some (int h)"
proof
  assume eq: "toString_num v = toString_nat h"
  have digits: "set (toString_num v) \<subseteq> set ''0123456789''"
    unfolding eq by (rule toString_nat_digits)
  show "v = Some (int h)"
  proof (cases v)
    case None
    with digits show ?thesis by (simp add: toString_num_def)
  next
    case (Some i)
    show ?thesis
    proof (cases "i < 0")
      case True
      with Some digits show ?thesis by (simp add: toString_num_def toString_int_def)
    next
      case False
      with Some eq have "toString_nat (nat i) = toString_nat h"
        by (simp add: toString_num_def toString_int_def)
      then have "nat i = h" by (rule toString_nat_inj)
      with False Some show ?thesis by simp
    qed
  qed
next
  assume "v = Some (int h)"
  then show "toString_num v = toString_nat h"
    by (simp add: toString_num_def toString_int_def)
qed

lemma tripsIn_hour:
  "tripsIn tripInfo rows K (toString_nat h) =
     {tid. \<exists>st \<in> set rows. tid = st_trip_id st \<and> rowKey tripInfo st = Some K \<and>
        (\<exists>time. timeOf st = Some time \<and> hourOf time = Some (int h))}"
proof -
  have "rowHourKey st = toString_nat h \<longleftrightarrow>
        (\<exists>time. timeOf st = Some time \<and> hourOf time = Some (int h))"
    if "rowKey tripInfo st = Some K" for st
  proof -
    from that obtain time where "timeOf st = Some time"
      by (auto simp: rowKey_def split: option.splits)
    then show ?thesis by (simp add: rowHourKey_def hour_key_iff)
  qed
  then show ?thesis unfolding tripsIn_def by blast
qed

text \<open>
  When no retained stop time has a trip id that collides with a key of \<open>tripTimes\<close>, the
  count of every group for every hour is the number of distinct trip ids among the
  group's rows with that hour key, that is, with that hour.
\<close>

lemma group_count_distinct_trips:
  assumes rows: "rows = filter (\<lambda>st. st_trip_id st \<in> activeTripsOf trips activeServiceIds) stopTimes"
    and ok: "\<And>st. st \<in> set rows \<Longrightarrow> \<not> collides (st_trip_id st)"
    and g: "map_of (stopRouteDirectionHeadways stopTimes trips activeServiceIds) K = Some g"
  shows "groupCount g h = card (tripsIn (tripInfoOf trips) rows K (toString_nat h))"
proof -
  let ?table = "stopRouteDirectionHeadways stopTimes trips activeServiceIds"
  have "tableInv (tripInfoOf trips) rows ?table"
    unfolding stopRouteDirectionHeadways_def rows [symmetric] using ok by (rule tableInv_foldl)
  then have "\<forall>K. case map_of ?table K of
            None \<Rightarrow> (\<forall>k. tripsIn (tripInfoOf trips) rows K k = {})
          | Some g \<Rightarrow> groupInv (tripInfoOf trips) rows K (tripTimes g)"
    unfolding tableInv_def .
  then have "case map_of ?table K of
            None \<Rightarrow> (\<forall>k. tripsIn (tripInfoOf trips) rows K k = {})
          | Some g \<Rightarrow> groupInv (tripInfoOf trips) rows K (tripTimes g)"
    by (rule spec)
  with g have "groupInv (tripInfoOf trips) rows K (tripTimes g)" by simp
  then have "\<forall>k. case tripTimes g k of
            None \<Rightarrow> tripsIn (tripInfoOf trips) rows K k = {}
          | Some S \<Rightarrow> S \<noteq> [] \<and> distinct S \<and> set S = tripsIn (tripInfoOf trips) rows K k"
    unfolding groupInv_def .
  then have inv: "case tripTimes g (toString_nat h) of
            None \<Rightarrow> tripsIn (tripInfoOf trips) rows K (toString_nat h) = {}
          | Some S \<Rightarrow> S \<noteq> [] \<and> distinct S \<and>
              set S = tripsIn (tripInfoOf trips) rows K (toString_nat h)"
    by (rule spec)
  show ?thesis
  proof (cases "tripTimes g (toString_nat h)")
    case None
    with inv show ?thesis by (simp add: groupCount_def)
  next
    case (Some S)
    with inv have "distinct S" "set S = tripsIn (tripInfoOf trips) rows K (toString_nat h)"
      by simp_all
    with Some show ?thesis by (simp add: groupCount_def distinct_card [symmetric])
  qed
qed

lemma group_count_distinct_trips_hour:
  assumes "rows = filter (\<lambda>st. st_trip_id st \<in> activeTripsOf trips activeServiceIds) stopTimes"
    and "\<And>st. st \<in> set rows \<Longrightarrow> \<not> collides (st_trip_id st)"
    and "map_of (stopRouteDirectionHeadways stopTimes trips activeServiceIds) K = Some g"
  shows "groupCount g h =
     card {tid. \<exists>st \<in> set rows. tid = st_trip_id st \<and> rowKey (tripInfoOf trips) st = Some K \<and>
        (\<exists>time. timeOf st = Some time \<and> hourOf time = Some (int h))}"
  using group_count_distinct_trips [OF assms, of h] by (simp only: tripsIn_hour)

lemma tripsIn_list:
  "tripsIn tripInfo rows K k =
     set (map st_trip_id (filter (\<lambda>st. rowKey tripInfo st = Some K \<and> rowHourKey st = k) rows))"
  by (auto simp: tripsIn_def)

lemma distinctTrips_tripsIn:
  "distinctTrips tripInfo rows K h = card (tripsIn tripInfo rows K (toString_nat h))"
  by (simp only: distinctTrips_def tripsIn_hour)

lemma processStopTime_distinct:
  "distinct (map fst headways) \<Longrightarrow> distinct (map fst (processStopTime tripInfo headways st))"
  by (simp add: processStopTime_def Let_def distinct_update split: option.splits)

lemma foldl_processStopTime_distinct:
  "distinct (map fst headways) \<Longrightarrow>
   distinct (map fst (foldl (processStopTime tripInfo) headways rows))"
  by (induction rows arbitrary: headways) (simp_all add: processStopTime_distinct)

lemma headways_distinct:
  "distinct (map fst (stopRouteDirectionHeadways stopTimes trips activeServiceIds))"
  unfolding stopRouteDirectionHeadways_def by (rule foldl_processStopTime_distinct) simp

text \<open>
  When no retained stop time has a trip id that collides with a key of \<open>tripTimes\<close>, the
  profile of a stop holds, for every hour 0 to 23, the maximum over the stop's groups of
  the number of distinct trip ids with a retained stop time of the group in that hour.
\<close>

lemma profile_is_max_of_distinct_trip_counts:
  assumes act: "activeServiceIds \<noteq> {}"
    and rows: "rows = filter (\<lambda>st. st_trip_id st \<in> activeTripsOf trips activeServiceIds) stopTimes"
    and ok: "\<And>st. st \<in> set rows \<Longrightarrow> \<not> collides (st_trip_id st)"
    and table: "table = stopRouteDirectionHeadways stopTimes trips activeServiceIds"
    and mem: "(stopId, profile) \<in> set (calculateStopFrequencies stopTimes trips activeServiceIds)"
    and h: "h < 24"
  shows "profile (toString_nat h) =
     Some (int (Max ((\<lambda>(K, g). distinctTrips (tripInfoOf trips) rows K h) `
                  {(K, g). (K, g) \<in> set table \<and> g_stop_id g = stopId})))"
proof -
  have count: "groupCount g h = distinctTrips (tripInfoOf trips) rows K h"
    if "(K, g) \<in> set table" for K g
  proof -
    from that headways_distinct [of stopTimes trips activeServiceIds]
    have "map_of (stopRouteDirectionHeadways stopTimes trips activeServiceIds) K = Some g"
      unfolding table by simp
    from group_count_distinct_trips [OF rows ok this, of h]
    show ?thesis by (simp only: distinctTrips_tripsIn)
  qed
  have "(\<lambda>g. groupCount g h) ` {g \<in> set (map snd table). g_stop_id g = stopId} =
        (\<lambda>(K, g). groupCount g h) ` {(K, g). (K, g) \<in> set table \<and> g_stop_id g = stopId}"
    by force
  also have "\<dots> = (\<lambda>(K, g). distinctTrips (tripInfoOf trips) rows K h) `
                  {(K, g). (K, g) \<in> set table \<and> g_stop_id g = stopId}"
    by (rule image_cong) (auto simp: count)
  finally have img: "(\<lambda>g. groupCount g h) ` {g \<in> set (map snd table). g_stop_id g = stopId} =
        (\<lambda>(K, g). distinctTrips (tripInfoOf trips) rows K h) `
                  {(K, g). (K, g) \<in> set table \<and> g_stop_id g = stopId}" .
  from profile_is_max_of_recorded_counts [OF act refl refl, where stopId = stopId and h = h] mem h
  have "profile (toString_nat h) =
        Some (int (Max ((\<lambda>g. groupCount g h) `
          {g \<in> set (map snd (stopRouteDirectionHeadways stopTimes trips activeServiceIds)).
             g_stop_id g = stopId})))"
    by blast
  then show ?thesis unfolding table [symmetric] img .
qed

text \<open>
  C2. The profile of a stop is meant to hold, for each hour, the maximum over the stop's
  groups of the groups' distinct-trip counts, and it does whenever no trip id collides with
  a key (\<open>profile_is_max_of_distinct_trip_counts\<close>). It holds the maximum of the sizes of the
  sets the groups recorded, and the guard \<open>!tripTimes[tripId]\<close> keeps a trip out of its set
  when its id is the key of an hour already recorded. With the trips \<open>T1\<close> and \<open>6\<close> of route
  \<open>R\<close> and \<open>U1\<close> of route \<open>Q\<close>, all at stop \<open>S\<close> in hour 6, the groups have 2 and 1
  distinct trips, the maximum is 2, and the profile of \<open>S\<close> says 1.
\<close>

theorem C2_profile_below_distinct_trip_count:
  "map (\<lambda>st. (st_trip_id st, rowKey (tripInfoOf numericIdTwoRouteTrips) st, timeOf st))
      numericIdTwoRouteStopTimes =
     [(''T1'', Some ''S|R|0'', Some ''06:00:00''), (''U1'', Some ''S|Q|0'', Some ''06:05:00''),
      (''6'', Some ''S|R|0'', Some ''06:30:00'')] \<and>
   map (\<lambda>(K, g). (K, g_stop_id g))
      (stopRouteDirectionHeadways numericIdTwoRouteStopTimes numericIdTwoRouteTrips {''A''}) =
     [(''S|R|0'', ''S''), (''S|Q|0'', ''S'')] \<and>
   distinctTrips (tripInfoOf numericIdTwoRouteTrips) numericIdTwoRouteStopTimes ''S|R|0'' 6 = 2 \<and>
   distinctTrips (tripInfoOf numericIdTwoRouteTrips) numericIdTwoRouteStopTimes ''S|Q|0'' 6 = 1 \<and>
   Max (set (map (\<lambda>K. distinctTrips (tripInfoOf numericIdTwoRouteTrips) numericIdTwoRouteStopTimes K 6)
      [''S|R|0'', ''S|Q|0''])) = 2 \<and>
   map (\<lambda>(s, p). (s, p (toString_nat 6)))
      (calculateStopFrequencies numericIdTwoRouteStopTimes numericIdTwoRouteTrips {''A''}) =
     [(''S'', Some 1)]"
proof -
  let ?ti = "tripInfoOf numericIdTwoRouteTrips"
  have rows: "map (\<lambda>st. (st_trip_id st, rowKey ?ti st, timeOf st)) numericIdTwoRouteStopTimes =
     [(''T1'', Some ''S|R|0'', Some ''06:00:00''), (''U1'', Some ''S|Q|0'', Some ''06:05:00''),
      (''6'', Some ''S|R|0'', Some ''06:30:00'')]"
    by code_simp
  have groups: "map (\<lambda>(K, g). (K, g_stop_id g))
      (stopRouteDirectionHeadways numericIdTwoRouteStopTimes numericIdTwoRouteTrips {''A''}) =
     [(''S|R|0'', ''S''), (''S|Q|0'', ''S'')]"
    by code_simp
  have r: "tripsIn ?ti numericIdTwoRouteStopTimes ''S|R|0'' (toString_nat 6) = {''T1'', ''6''}"
    unfolding tripsIn_list by code_simp
  have q: "tripsIn ?ti numericIdTwoRouteStopTimes ''S|Q|0'' (toString_nat 6) = {''U1''}"
    unfolding tripsIn_list by code_simp
  have dr: "distinctTrips ?ti numericIdTwoRouteStopTimes ''S|R|0'' 6 = 2"
    unfolding distinctTrips_tripsIn r by simp
  have dq: "distinctTrips ?ti numericIdTwoRouteStopTimes ''S|Q|0'' 6 = 1"
    unfolding distinctTrips_tripsIn q by simp
  have mx: "Max (set (map (\<lambda>K. distinctTrips ?ti numericIdTwoRouteStopTimes K 6)
      [''S|R|0'', ''S|Q|0''])) = 2"
    by (simp add: dr dq)
  have prof: "map (\<lambda>(s, p). (s, p (toString_nat 6)))
      (calculateStopFrequencies numericIdTwoRouteStopTimes numericIdTwoRouteTrips {''A''}) =
     [(''S'', Some 1)]"
    by code_simp
  from rows groups dr dq mx prof show ?thesis by blast
qed

text \<open>
  C9. The count of a group for an hour is meant to be the number of distinct trip ids with
  a retained stop time in that hour, and it is whenever no trip id collides with a key
  (\<open>group_count_distinct_trips_hour\<close>). But the guard \<open>!tripTimes[tripId]\<close> reads the object
  that is keyed by hour, so a trip whose id is the key of an hour already recorded in the
  group is not counted: with the trips \<open>T1\<close> and \<open>6\<close> both at stop \<open>S\<close> in hour 6, the count
  of hour 6 is 1 and not 2. A repeated row of one trip is counted once, as intended.
\<close>

theorem C9_trip_id_equal_to_hour_key_is_dropped:
  "map (map_option hourOf \<circ> timeOf) numericIdStopTimes = [Some (Some 6), Some (Some 6)] \<and>
   map st_trip_id numericIdStopTimes = [''T1'', ''6''] \<and>
   map (\<lambda>(k, g). (k, tripTimes g ''6'', groupCount g 6))
      (stopRouteDirectionHeadways numericIdStopTimes numericIdTrips {''A''}) =
     [(''S|R|0'', Some [''T1''], 1)] \<and>
   map (\<lambda>(s, p). (s, p ''6'')) (calculateStopFrequencies numericIdStopTimes numericIdTrips {''A''}) =
     [(''S'', Some 1)] \<and>
   map (\<lambda>(k, g). (k, tripTimes g ''6'', groupCount g 6))
      (stopRouteDirectionHeadways twoRouteStopTimes twoRouteTrips {''A''}) =
     [(''S|R|0'', Some [''T1'', ''T2''], 2), (''S|Q|0'', Some [''U1''], 1)]"
  by code_simp

section \<open>Properties of the catchment resolution and the coverage\<close>




subsection \<open>The union reduction\<close>

lemma unionLoop_foldl:
  "unionLoop turf walksheds i acc = foldl (unionOrKeep turf) acc (drop i walksheds)"
proof (induction turf walksheds i acc rule: unionLoop.induct)
  case (1 turf walksheds i acc)
  show ?case
  proof (cases "i < length walksheds")
    case False
    then show ?thesis by (subst unionLoop.simps) simp
  next
    case True
    then have drop: "drop i walksheds = walksheds ! i # drop (Suc i) walksheds"
      by (simp add: Cons_nth_drop_Suc)
    show ?thesis
    proof (cases "turf_union turf acc (Some (walksheds ! i))")
      case (Inl e)
      then have "unionLoop turf walksheds i acc = unionLoop turf walksheds (Suc i) acc"
        using True by (subst unionLoop.simps) simp
      with "1.IH"(1) [OF True Inl] Inl show ?thesis
        by (simp add: drop unionOrKeep_def)
    next
      case (Inr u)
      then have "unionLoop turf walksheds i acc = unionLoop turf walksheds (Suc i) u"
        using True by (subst unionLoop.simps) simp
      with "1.IH"(2) [OF True Inr] Inr show ?thesis
        by (simp add: drop unionOrKeep_def)
    qed
  qed
qed

lemma mergeWalksheds_foldl:
  "mergeWalksheds turf (w # ws) = foldl (unionOrKeep turf) (Some w) ws"
  by (simp add: mergeWalksheds_def unionLoop_foldl)

text \<open>
  C6. The reduction loop is the left fold of \<open>unionOrKeep\<close>, which keeps the accumulator
  when the union of the accumulator with the next walkshed raises. No raising union ends
  the computation: once the walksheds are resolved, the coverage without boundary is the
  fold's result with its area, whatever the union primitive does.
\<close>

theorem C6_union_failure_keeps_accumulator:
  "unionLoop turf walksheds i acc = foldl (unionOrKeep turf) acc (drop i walksheds) \<and>
   mergeWalksheds turf (w # ws) = foldl (unionOrKeep turf) (Some w) ws \<and>
   (turf_union turf acc (Some v) = Inl e \<longrightarrow> unionOrKeep turf acc v = acc) \<and>
   (turf_union turf acc (Some v) = Inr u \<longrightarrow> unionOrKeep turf acc v = u) \<and>
   (turfLoaded \<and> mapRaising (walkshedOf turf isochrones year) stopList = Inr (w # ws) \<and>
    turf_area turf (foldl (unionOrKeep turf) (Some w) ws) = Inr a \<longrightarrow>
      calculateWalkshedCoverage turfLoaded turf isochrones year stopList None =
        \<lparr>mergedPolygon = foldl (unionOrKeep turf) (Some w) ws,
         mergedPolygonOutOfBounds = None,
         coveragePercent = ToFixed1 (jsMul (jsDiv a 217000000) (Some 100))\<rparr>)"
proof -
  have cov: "calculateWalkshedCoverage turfLoaded turf isochrones year stopList None =
        \<lparr>mergedPolygon = foldl (unionOrKeep turf) (Some w) ws,
         mergedPolygonOutOfBounds = None,
         coveragePercent = ToFixed1 (jsMul (jsDiv a 217000000) (Some 100))\<rparr>"
    if "turfLoaded" "mapRaising (walkshedOf turf isochrones year) stopList = Inr (w # ws)"
      "turf_area turf (foldl (unionOrKeep turf) (Some w) ws) = Inr a"
  proof -
    from that(2) have "stopList \<noteq> []" by (cases stopList) auto
    then show ?thesis
      using that
      by (simp add: calculateWalkshedCoverage_def coverageTry_def unclipped_def
          mergeWalksheds_foldl)
  qed
  show ?thesis
    using unionLoop_foldl [of turf walksheds i acc] mergeWalksheds_foldl [of turf w ws] cov
    by (simp add: unionOrKeep_def)
qed

theorem C6_union_failure_keeps_accumulator_witness:
  "mapRaising (walkshedOf gridTurf gridIsochrones ''2025'')
      [plainStop ''a'', plainStop ''b'', plainStop ''c''] = Inr [[4, 5], [13], [2]] \<and>
   turf_union gridTurf (Some [4, 5]) (Some [13]) = Inl Raised \<and>
   unionOrKeep gridTurf (Some [4, 5]) [13] = Some [4, 5] \<and>
   foldl (unionOrKeep gridTurf) (Some [4, 5]) [[13], [2]] = Some [4, 5, 2] \<and>
   calculateWalkshedCoverage True gridTurf gridIsochrones ''2025''
      [plainStop ''a'', plainStop ''b'', plainStop ''c''] None =
     \<lparr>mergedPolygon = Some [4, 5, 2], mergedPolygonOutOfBounds = None,
      coveragePercent = ToFixed1 (Some (3 / 217000000 * 100))\<rparr>"
proof -
  let ?stops = "[plainStop ''a'', plainStop ''b'', plainStop ''c'']"
  have ws: "mapRaising (walkshedOf gridTurf gridIsochrones ''2025'') ?stops =
            Inr [[4, 5], [13], [2]]"
    by code_simp
  have raise: "turf_union gridTurf (Some [4, 5]) (Some [13]) = Inl Raised"
    by (simp add: gridTurf_def)
  have fold: "foldl (unionOrKeep gridTurf) (Some [4, 5]) [[13], [2]] = Some [4, 5, 2]"
    by (simp add: unionOrKeep_def gridTurf_def cellsOp_def)
  have area: "turf_area gridTurf (foldl (unionOrKeep gridTurf) (Some [4, 5]) [[13], [2]]) = Inr 3"
    unfolding fold by (simp add: gridTurf_def)
  from C6_union_failure_keeps_accumulator
         [of gridTurf "[]" 0 "Some [4, 5]" "[4, 5]" "[[13], [2]]" "[13]" Raised "Some []" True
             gridIsochrones "''2025''" ?stops 3]
    ws raise fold area
  show ?thesis by (simp add: jsMul_def jsDiv_def)
qed

subsection \<open>Clipping to the boundary\<close>

text \<open>
  C3. With a boundary whose first feature has the area \<open>B\<close> and simplifies to
  \<open>simplifiedBoundary\<close>, the intersection and the difference are taken of the merged
  walksheds (not simplified) and the simplified boundary. If the intersection is a polygon
  of area \<open>a\<close>, it is the merged polygon, the remainder is the difference (\<open>null\<close> if the
  difference raises) and the coverage is \<open>a / B * 100\<close>, formatted to one decimal, \<open>B\<close>
  being the area of the boundary as given (\<open>jsDiv\<close> and \<open>jsMul\<close> are the engine's \<open>/\<close> and
  \<open>*\<close>). If the intersection is \<open>null\<close> or raises, the
  merged polygon is \<open>null\<close>, the remainder is the whole union and the coverage is \<open>'0'\<close>.
\<close>

theorem C3_clipped_coverage:
  assumes "turfLoaded"
    and "mapRaising (walkshedOf turf isochrones year) stopList = Inr (w # ws)"
    and "unioned = foldl (unionOrKeep turf) (Some w) ws"
    and "turf_area turf (firstFeature features) = Inr B"
    and "turf_simplify turf (firstFeature features) (1 / 1000) False = Inr simplifiedBoundary"
  shows "(turf_intersect turf unioned simplifiedBoundary = Inr (Some clipped) \<and>
          turf_area turf (Some clipped) = Inr a \<longrightarrow>
            calculateWalkshedCoverage turfLoaded turf isochrones year stopList (Some features) =
              \<lparr>mergedPolygon = Some clipped,
               mergedPolygonOutOfBounds =
                 (case turf_difference turf unioned simplifiedBoundary of
                    Inl e \<Rightarrow> None | Inr d \<Rightarrow> d),
               coveragePercent = ToFixed1 (jsMul (jsDiv a B) (Some 100))\<rparr>) \<and>
         (turf_intersect turf unioned simplifiedBoundary = Inr None \<or>
          turf_intersect turf unioned simplifiedBoundary = Inl e \<longrightarrow>
            calculateWalkshedCoverage turfLoaded turf isochrones year stopList (Some features) =
              \<lparr>mergedPolygon = None, mergedPolygonOutOfBounds = unioned,
               coveragePercent = Zero\<rparr>)"
proof -
  from assms(2) have ne: "stopList \<noteq> []" by (cases stopList) auto
  have m: "mergeWalksheds turf (w # ws) = unioned"
    by (simp add: mergeWalksheds_foldl assms(3))
  have cov: "calculateWalkshedCoverage turfLoaded turf isochrones year stopList (Some features) =
             (case clipToBoundary turf unioned (firstFeature features) B of
                Inr r \<Rightarrow> r
              | Inl oob \<Rightarrow>
                  (case unclipped turf unioned oob of
                     Inr r \<Rightarrow> r
                   | Inl err \<Rightarrow>
                       \<lparr>mergedPolygon = None, mergedPolygonOutOfBounds = None,
                        coveragePercent = ToFixed1Plus
                          (jsMul (jsDiv (real (length stopList) * pi * HALF_MILE_METERS ^ 2)
                             217000000) (Some 100))\<rparr>))"
    using ne assms(1,2,4)
    by (simp add: calculateWalkshedCoverage_def coverageTry_def m split: sum.splits)
  have hit: "clipToBoundary turf unioned (firstFeature features) B =
       Inr \<lparr>mergedPolygon = Some clipped,
            mergedPolygonOutOfBounds =
              (case turf_difference turf unioned simplifiedBoundary of Inl e \<Rightarrow> None | Inr d \<Rightarrow> d),
            coveragePercent = ToFixed1 (jsMul (jsDiv a B) (Some 100))\<rparr>"
    if "turf_intersect turf unioned simplifiedBoundary = Inr (Some clipped)"
      "turf_area turf (Some clipped) = Inr a"
    using that assms(5) by (simp add: clipToBoundary_def)
  have miss: "clipToBoundary turf unioned (firstFeature features) B =
       Inr \<lparr>mergedPolygon = None, mergedPolygonOutOfBounds = unioned, coveragePercent = Zero\<rparr>"
    if "turf_intersect turf unioned simplifiedBoundary = Inr None \<or>
        turf_intersect turf unioned simplifiedBoundary = Inl e"
    using that assms(5) by (auto simp: clipToBoundary_def)
  show ?thesis
    using hit miss by (auto simp: cov)
qed

theorem C3_clipped_coverage_witness:
  "mapRaising (walkshedOf gridTurf gridIsochrones ''2025'') [plainStop ''a'', plainStop ''c''] =
     Inr [[4, 5], [2]] \<and>
   turf_simplify gridTurf (firstFeature [[1, 2, 3, 4]]) (1 / 1000) False = Inr (Some [1, 2, 3]) \<and>
   turf_intersect gridTurf (Some [4, 5, 2]) (Some [1, 2, 3]) = Inr (Some [2]) \<and>
   calculateWalkshedCoverage True gridTurf gridIsochrones ''2025''
      [plainStop ''a'', plainStop ''c''] (Some [[1, 2, 3, 4]]) =
     \<lparr>mergedPolygon = Some [2], mergedPolygonOutOfBounds = Some [4, 5],
      coveragePercent = ToFixed1 (Some (1 / 4 * 100))\<rparr> \<and>
   turf_intersect gridTurf (Some [7, 8]) (Some [1, 2, 3]) = Inr None \<and>
   calculateWalkshedCoverage True gridTurf gridIsochrones ''2025''
      [plainStop ''d''] (Some [[1, 2, 3, 4]]) =
     \<lparr>mergedPolygon = None, mergedPolygonOutOfBounds = Some [7, 8], coveragePercent = Zero\<rparr>"
proof -
  have ws: "mapRaising (walkshedOf gridTurf gridIsochrones ''2025'')
              [plainStop ''a'', plainStop ''c''] = Inr [[4, 5], [2]]"
    by code_simp
  have ws': "mapRaising (walkshedOf gridTurf gridIsochrones ''2025'') [plainStop ''d''] =
             Inr [[7, 8]]"
    by code_simp
  have u: "Some [4, 5, 2] = foldl (unionOrKeep gridTurf) (Some [4, 5]) [[2]]"
    by (simp add: unionOrKeep_def gridTurf_def cellsOp_def)
  have u': "Some [7, 8] = foldl (unionOrKeep gridTurf) (Some [7, 8]) []"
    by simp
  have B: "turf_area gridTurf (firstFeature [[1, 2, 3, 4]]) = Inr 4"
    by (simp add: gridTurf_def firstFeature_def)
  have sb: "turf_simplify gridTurf (firstFeature [[1, 2, 3, 4]]) (1 / 1000) False =
            Inr (Some [1, 2, 3])"
    by (simp add: gridTurf_def firstFeature_def)
  have i: "turf_intersect gridTurf (Some [4, 5, 2]) (Some [1, 2, 3]) = Inr (Some [2])"
    by (simp add: gridTurf_def cellsOp_def nonEmpty_def)
  have d: "turf_difference gridTurf (Some [4, 5, 2]) (Some [1, 2, 3]) = Inr (Some [4, 5])"
    by (simp add: gridTurf_def cellsOp_def nonEmpty_def)
  have a: "turf_area gridTurf (Some [2]) = Inr 1"
    by (simp add: gridTurf_def)
  have i': "turf_intersect gridTurf (Some [7, 8]) (Some [1, 2, 3]) = Inr None"
    by (simp add: gridTurf_def cellsOp_def nonEmpty_def)
  from C3_clipped_coverage [OF TrueI ws u B sb, of "[2]" 1 Raised] i a d
  have r1: "calculateWalkshedCoverage True gridTurf gridIsochrones ''2025''
      [plainStop ''a'', plainStop ''c''] (Some [[1, 2, 3, 4]]) =
     \<lparr>mergedPolygon = Some [2], mergedPolygonOutOfBounds = Some [4, 5],
      coveragePercent = ToFixed1 (Some (1 / 4 * 100))\<rparr>"
    by (simp add: jsMul_def jsDiv_def)
  from C3_clipped_coverage [OF TrueI ws' u' B sb, of "[]" 0 Raised] i'
  have r2: "calculateWalkshedCoverage True gridTurf gridIsochrones ''2025''
      [plainStop ''d''] (Some [[1, 2, 3, 4]]) =
     \<lparr>mergedPolygon = None, mergedPolygonOutOfBounds = Some [7, 8], coveragePercent = Zero\<rparr>"
    by simp
  from ws sb i r1 i' r2 show ?thesis by blast
qed

section \<open>Properties of the population apportionment\<close>

lemma candidatePopulation_nonneg: "0 \<le> candidatePopulation b"
  by (simp add: candidatePopulation_def split: option.splits)

lemma candidatePopulation_candidate: "candidate b p \<Longrightarrow> candidatePopulation b = real_of_int p"
  by (simp add: candidatePopulation_def candidate_def)

lemma share_le:
  fixes p ia ba :: real
  assumes "0 < ba" "ia \<le> ba" "0 \<le> p"
  shows "p * (ia / ba) \<le> p"
proof -
  from assms(1,2) have "ia / ba \<le> 1" by (simp add: divide_le_eq)
  from this assms(3) have "p * (ia / ba) \<le> p * 1" by (rule mult_left_mono)
  then show ?thesis by simp
qed

lemma apportionBlock_skipped:
  assumes "Place b \<noteq> Some ''Seattle'' \<or> (\<exists>p. populationOf (TOT_POP b) = Some p \<and> p < 1)"
  shows "apportionBlock turf w acc b = acc"
  using assms by (auto simp: apportionBlock_def)

lemma apportionBlock_candidate:
  assumes "candidate b p"
  shows "apportionBlock turf w (pop, n) b =
     (case turf_booleanIntersects turf (Some (feature b)) w of
        Inl err \<Rightarrow> (pop, n)
      | Inr intersects \<Rightarrow>
          if intersects then
            (case turf_booleanWithin turf (Some (feature b)) w of
               Inl err \<Rightarrow> (pop, n)
             | Inr fullyWithin \<Rightarrow>
                 if fullyWithin then (jsAdd pop (Some (real_of_int p)), n + 1)
                 else
                   (case turf_area turf (Some (feature b)) of
                      Inl err \<Rightarrow> (pop, n)
                    | Inr blockArea \<Rightarrow>
                        (case turf_intersect turf (Some (feature b)) w of
                           Inl err \<Rightarrow> (pop, n)
                         | Inr None \<Rightarrow> (jsAdd pop (Some (real_of_int p)), n + 1)
                         | Inr (Some intersection) \<Rightarrow>
                             (case turf_area turf (Some intersection) of
                                Inl err \<Rightarrow> (pop, n)
                              | Inr intersectionArea \<Rightarrow>
                                  (jsAdd pop (jsMul (Some (real_of_int p))
                                     (jsDiv intersectionArea blockArea)), n + 1)))))
          else (pop, n))"
  using assms
  by (simp add: apportionBlock_def candidate_def ofInt_def Let_def
      split: sum.splits option.splits)

lemma apportionBlock_bound:
  assumes nan: "Place c = Some ''Seattle'' \<longrightarrow> populationOf (TOT_POP c) \<noteq> None"
    and areas: "\<forall>ba i ia. turf_area turf (Some (feature c)) = Inr ba \<and>
                  turf_intersect turf (Some (feature c)) w = Inr (Some i) \<and>
                  turf_area turf (Some i) = Inr ia \<longrightarrow> 0 < ba \<and> ia \<le> ba"
  shows "\<exists>t'. fst (apportionBlock turf w (Some t, n) c) = Some t' \<and>
              t' \<le> t + candidatePopulation c"
proof (cases "\<exists>p. candidate c p")
  case False
  with nan have "Place c \<noteq> Some ''Seattle'' \<or> (\<exists>p. populationOf (TOT_POP c) = Some p \<and> p < 1)"
    by (auto simp: candidate_def not_le)
  then have "apportionBlock turf w (Some t, n) c = (Some t, n)"
    by (rule apportionBlock_skipped)
  then show ?thesis
    using candidatePopulation_nonneg [of c] by simp
next
  case True
  then obtain p where cand: "candidate c p" ..
  then have p: "1 \<le> p" and cp: "candidatePopulation c = real_of_int p"
    by (simp_all add: candidate_def candidatePopulation_candidate)
  have share: "real_of_int p * (ia / ba) \<le> real_of_int p" and nz: "ba \<noteq> 0"
    if "turf_area turf (Some (feature c)) = Inr ba"
      "turf_intersect turf (Some (feature c)) w = Inr (Some i)"
      "turf_area turf (Some i) = Inr ia" for ba i ia
  proof -
    from areas that have ba: "0 < ba" and ia: "ia \<le> ba" by blast+
    from p have "0 \<le> real_of_int p" by simp
    with ba ia show "real_of_int p * (ia / ba) \<le> real_of_int p" by (rule share_le)
    from ba show "ba \<noteq> 0" by simp
  qed
  show ?thesis
    unfolding apportionBlock_candidate [OF cand] cp
    using p share nz
    by (auto simp: jsAdd_def jsMul_def jsDiv_def split: sum.splits option.splits)
qed

lemma apportionBlocks_bound:
  assumes "\<And>c. c \<in> set blocks \<Longrightarrow> measured turf w c"
  shows "\<exists>T. fst (foldl (apportionBlock turf w) (Some t, n) blocks) = Some T \<and>
             T \<le> t + sum_list (map candidatePopulation blocks)"
  using assms
proof (induction blocks arbitrary: t n)
  case Nil
  then show ?case by simp
next
  case (Cons c blocks)
  have "measured turf w c" by (rule Cons.prems) simp
  then obtain t' where
    step: "fst (apportionBlock turf w (Some t, n) c) = Some t'"
    and le: "t' \<le> t + candidatePopulation c"
    using apportionBlock_bound [of c turf w t n] unfolding measured_def by blast
  obtain n' where acc: "apportionBlock turf w (Some t, n) c = (Some t', n')"
    using step by (cases "apportionBlock turf w (Some t, n) c") auto
  have "\<And>d. d \<in> set blocks \<Longrightarrow> measured turf w d"
    by (rule Cons.prems) simp
  from Cons.IH [OF this, of t' n'] obtain T where
    "fst (foldl (apportionBlock turf w) (Some t', n') blocks) = Some T"
    "T \<le> t' + sum_list (map candidatePopulation blocks)"
    by blast
  with le acc show ?case by (intro exI [of _ T]) simp
qed

text \<open>
  C4. A candidate unit (block of the target region, population \<open>p \<ge> 1\<close>) adds nothing when
  it does not intersect the coverage polygon; \<open>p\<close> when it lies within it; \<open>p\<close> times
  intersection area over block area (\<open>jsMul\<close>, \<open>jsDiv\<close>) when it overlaps in part and the
  intersection is a polygon; and \<open>p\<close> when the intersection comes back as \<open>null\<close> although the test reported
  an overlap. When every block of the region has a numeric population, and every
  intersection area is at most the area of its block, which is positive, the total is a
  number that does not exceed the sum of the candidates' populations.
\<close>

theorem C4_population_apportionment:
  "(candidate b p \<and> turf_booleanIntersects turf (Some (feature b)) w = Inr False \<longrightarrow>
      apportionBlock turf w (pop, n) b = (pop, n)) \<and>
   (candidate b p \<and> turf_booleanIntersects turf (Some (feature b)) w = Inr True \<and>
    turf_booleanWithin turf (Some (feature b)) w = Inr True \<longrightarrow>
      apportionBlock turf w (pop, n) b = (jsAdd pop (Some (real_of_int p)), n + 1)) \<and>
   (candidate b p \<and> turf_booleanIntersects turf (Some (feature b)) w = Inr True \<and>
    turf_booleanWithin turf (Some (feature b)) w = Inr False \<and>
    turf_area turf (Some (feature b)) = Inr ba \<and>
    turf_intersect turf (Some (feature b)) w = Inr (Some i) \<and>
    turf_area turf (Some i) = Inr ia \<longrightarrow>
      apportionBlock turf w (pop, n) b =
        (jsAdd pop (jsMul (Some (real_of_int p)) (jsDiv ia ba)), n + 1)) \<and>
   (candidate b p \<and> turf_booleanIntersects turf (Some (feature b)) w = Inr True \<and>
    turf_booleanWithin turf (Some (feature b)) w = Inr False \<and>
    turf_area turf (Some (feature b)) = Inr ba \<and>
    turf_intersect turf (Some (feature b)) w = Inr None \<longrightarrow>
      apportionBlock turf w (pop, n) b = (jsAdd pop (Some (real_of_int p)), n + 1)) \<and>
   ((\<forall>c \<in> set blocks.
       (Place c = Some ''Seattle'' \<longrightarrow> populationOf (TOT_POP c) \<noteq> None) \<and>
       (\<forall>ba i ia. turf_area turf (Some (feature c)) = Inr ba \<and>
          turf_intersect turf (Some (feature c)) w = Inr (Some i) \<and>
          turf_area turf (Some i) = Inr ia \<longrightarrow> 0 < ba \<and> ia \<le> ba)) \<longrightarrow>
      (\<exists>T. fst (apportionBlocks turf w blocks) = Some T \<and>
           T \<le> sum_list (map candidatePopulation blocks)))"
proof -
  have none: "apportionBlock turf w (pop, n) b = (pop, n)"
    if "candidate b p" "turf_booleanIntersects turf (Some (feature b)) w = Inr False"
    using that by (simp add: apportionBlock_candidate)
  have full: "apportionBlock turf w (pop, n) b = (jsAdd pop (Some (real_of_int p)), n + 1)"
    if "candidate b p" "turf_booleanIntersects turf (Some (feature b)) w = Inr True"
      "turf_booleanWithin turf (Some (feature b)) w = Inr True"
    using that by (simp add: apportionBlock_candidate)
  have part: "apportionBlock turf w (pop, n) b =
        (jsAdd pop (jsMul (Some (real_of_int p)) (jsDiv ia ba)), n + 1)"
    if "candidate b p" "turf_booleanIntersects turf (Some (feature b)) w = Inr True"
      "turf_booleanWithin turf (Some (feature b)) w = Inr False"
      "turf_area turf (Some (feature b)) = Inr ba"
      "turf_intersect turf (Some (feature b)) w = Inr (Some i)"
      "turf_area turf (Some i) = Inr ia"
    using that by (simp add: apportionBlock_candidate)
  have null: "apportionBlock turf w (pop, n) b = (jsAdd pop (Some (real_of_int p)), n + 1)"
    if "candidate b p" "turf_booleanIntersects turf (Some (feature b)) w = Inr True"
      "turf_booleanWithin turf (Some (feature b)) w = Inr False"
      "turf_area turf (Some (feature b)) = Inr ba"
      "turf_intersect turf (Some (feature b)) w = Inr None"
    using that by (simp add: apportionBlock_candidate)
  have bound: "\<exists>T. fst (apportionBlocks turf w blocks) = Some T \<and>
                   T \<le> sum_list (map candidatePopulation blocks)"
    if "\<forall>c \<in> set blocks.
       (Place c = Some ''Seattle'' \<longrightarrow> populationOf (TOT_POP c) \<noteq> None) \<and>
       (\<forall>ba i ia. turf_area turf (Some (feature c)) = Inr ba \<and>
          turf_intersect turf (Some (feature c)) w = Inr (Some i) \<and>
          turf_area turf (Some i) = Inr ia \<longrightarrow> 0 < ba \<and> ia \<le> ba)"
  proof -
    from that have "\<And>c. c \<in> set blocks \<Longrightarrow> measured turf w c"
      unfolding measured_def by blast
    from apportionBlocks_bound [OF this, where t = 0 and n = 0] show ?thesis
      by (simp add: apportionBlocks_def)
  qed
  from none full part null bound show ?thesis by blast
qed

lemma census_populations:
  "populationOf (PString ''10'') = Some 10" "populationOf (PString ''20'') = Some 20"
  "populationOf (PString ''7'') = Some 7" "populationOf (PString ''0'') = Some 0"
  "populationOf (PNumber 50) = Some 50"
  by code_simp+

lemmas grid_eval =
  seattleBlock_def gridTurf_def nullIntersectTurf_def cellsOp_def nonEmpty_def
  census_populations candidate_def

theorem C4_population_apportionment_witness:
  "candidate (seattleBlock ''20'' [9]) 20 \<and>
   apportionBlock gridTurf (Some [1, 2, 3]) (Some 0, 0) (seattleBlock ''20'' [9]) = (Some 0, 0) \<and>
   candidate (seattleBlock ''10'' [1]) 10 \<and>
   apportionBlock gridTurf (Some [1, 2, 3]) (Some 0, 0) (seattleBlock ''10'' [1]) = (Some 10, 1) \<and>
   candidate (seattleBlock ''7'' [3, 4]) 7 \<and>
   apportionBlock gridTurf (Some [1, 2, 3]) (Some 0, 0) (seattleBlock ''7'' [3, 4]) =
     (Some (7 * (1 / 2)), 1) \<and>
   apportionBlock nullIntersectTurf (Some [1, 2, 3]) (Some 0, 0) (seattleBlock ''7'' [3, 4]) =
     (Some 7, 1) \<and>
   list_all (measured gridTurf (Some [1, 2, 3])) censusBlocks \<and>
   (\<exists>T. fst (apportionBlocks gridTurf (Some [1, 2, 3]) censusBlocks) = Some T \<and>
        T \<le> sum_list (map candidatePopulation censusBlocks)) \<and>
   apportionBlocks gridTurf (Some [1, 2, 3]) censusBlocks = (Some (27 / 2), 2) \<and>
   sum_list (map candidatePopulation censusBlocks) = 37"
proof -
  let ?w = "Some [1, 2, 3 :: nat]"
  let ?far = "seattleBlock ''20'' [9]" and ?in = "seattleBlock ''10'' [1]"
    and ?edge = "seattleBlock ''7'' [3, 4]"
  have c1: "candidate ?far 20" and c2: "candidate ?in 10" and c3: "candidate ?edge 7"
    by (simp_all add: grid_eval)
  have far: "turf_booleanIntersects gridTurf (Some (feature ?far)) ?w = Inr False"
    by (simp add: grid_eval)
  have inside: "turf_booleanIntersects gridTurf (Some (feature ?in)) ?w = Inr True"
    "turf_booleanWithin gridTurf (Some (feature ?in)) ?w = Inr True"
    by (simp_all add: grid_eval)
  have edge: "turf_booleanIntersects gridTurf (Some (feature ?edge)) ?w = Inr True"
    "turf_booleanWithin gridTurf (Some (feature ?edge)) ?w = Inr False"
    "turf_area gridTurf (Some (feature ?edge)) = Inr 2"
    "turf_intersect gridTurf (Some (feature ?edge)) ?w = Inr (Some [3])"
    "turf_area gridTurf (Some [3]) = Inr 1"
    by (simp_all add: grid_eval)
  have edge': "turf_booleanIntersects nullIntersectTurf (Some (feature ?edge)) ?w = Inr True"
    "turf_booleanWithin nullIntersectTurf (Some (feature ?edge)) ?w = Inr False"
    "turf_area nullIntersectTurf (Some (feature ?edge)) = Inr 2"
    "turf_intersect nullIntersectTurf (Some (feature ?edge)) ?w = Inr None"
    by (simp_all add: grid_eval)
  have r1: "apportionBlock gridTurf ?w (Some 0, 0) ?far = (Some 0, 0)"
    using C4_population_apportionment
            [where b = ?far and p = 20 and turf = gridTurf and w = ?w and pop = "Some 0" and n = 0]
      c1 far by blast
  have r2: "apportionBlock gridTurf ?w (Some 0, 0) ?in = (jsAdd (Some 0) (Some (real_of_int 10)), 0 + 1)"
    using C4_population_apportionment
            [where b = ?in and p = 10 and turf = gridTurf and w = ?w and pop = "Some 0" and n = 0]
      c2 inside by blast
  have r3: "apportionBlock gridTurf ?w (Some 0, 0) ?edge =
            (jsAdd (Some 0) (jsMul (Some (real_of_int 7)) (jsDiv 1 2)), 0 + 1)"
    using C4_population_apportionment
            [where b = ?edge and p = 7 and turf = gridTurf and w = ?w and pop = "Some 0"
               and n = 0 and ba = 2 and i = "[3]" and ia = 1]
      c3 edge by blast
  have r4: "apportionBlock nullIntersectTurf ?w (Some 0, 0) ?edge =
            (jsAdd (Some 0) (Some (real_of_int 7)), 0 + 1)"
    using C4_population_apportionment
            [where b = ?edge and p = 7 and turf = nullIntersectTurf and w = ?w and pop = "Some 0"
               and n = 0 and ba = 2]
      c3 edge' by blast
  have m: "list_all (measured gridTurf ?w) censusBlocks"
    by (simp add: censusBlocks_def measured_def grid_eval)
  then have "\<forall>c \<in> set censusBlocks.
       (Place c = Some ''Seattle'' \<longrightarrow> populationOf (TOT_POP c) \<noteq> None) \<and>
       (\<forall>ba i ia. turf_area gridTurf (Some (feature c)) = Inr ba \<and>
          turf_intersect gridTurf (Some (feature c)) ?w = Inr (Some i) \<and>
          turf_area gridTurf (Some i) = Inr ia \<longrightarrow> 0 < ba \<and> ia \<le> ba)"
    unfolding list_all_iff measured_def .
  with C4_population_apportionment
         [where turf = gridTurf and w = ?w and blocks = censusBlocks and b = ?in and p = 10]
  have r5: "\<exists>T. fst (apportionBlocks gridTurf ?w censusBlocks) = Some T \<and>
                T \<le> sum_list (map candidatePopulation censusBlocks)"
    by blast
  have t: "apportionBlocks gridTurf ?w censusBlocks = (Some (27 / 2), 2)"
    by (simp add: apportionBlocks_def apportionBlock_def censusBlocks_def grid_eval
        jsAdd_def jsMul_def jsDiv_def ofInt_def)
  have s: "sum_list (map candidatePopulation censusBlocks) = 37"
    by (simp add: candidatePopulation_def censusBlocks_def grid_eval)
  from c1 c2 c3 r1 r2 r3 r4 m r5 t s show ?thesis
    by (simp add: jsAdd_def jsMul_def jsDiv_def)
qed

end
